theory Spec2Isabelle
  imports Main "HOL-Library.AList"
begin

text \<open>
  A model of the SQL context analyser (\<^verbatim>\<open>SqlParser\<close>) and of the schema metadata
  cache (\<^verbatim>\<open>SchemaCache\<close>) of the PX SQL Tools extension, and the statements of its
  specification that are checked against them. The definitions follow the source
  function by function and keep its names; the asynchronous functions of the cache
  take the state of the cache and return it with their result, one call at a time.
\<close>

section \<open>JavaScript strings\<close>

text \<open>
  A string is the list of its UTF-16 code units, and a character of the model is a
  code unit below 256: the ASCII characters and the Latin-1 supplement (U+0080 to
  U+00FF). On these, the whitespace of \<^verbatim>\<open>String.prototype.trim\<close> and of the regular
  expression class \<^verbatim>\<open>\s\<close> is the space, the control characters U+0009 to U+000D and
  the no-break space U+00A0; and \<^verbatim>\<open>toLowerCase\<close> changes the letters A to Z and the
  capital letters U+00C0 to U+00DE, the multiplication sign U+00D7 apart, each to the
  code unit 32 above it. The classes \<^verbatim>\<open>\w\<close> and \<^verbatim>\<open>[A-Za-z]\<close> are ASCII in the
  expressions of the source, which have no flag \<^verbatim>\<open>u\<close>, also under the flag \<^verbatim>\<open>i\<close>.
\<close>

definition isSpace :: "char \<Rightarrow> bool" where
  "isSpace c = (c \<in> set [CHR '' '', CHR 0x09, CHR 0x0A, CHR 0x0B, CHR 0x0C, CHR 0x0D, CHR 0xA0])"

definition upperLetters :: string where
  "upperLetters = ''ABCDEFGHIJKLMNOPQRSTUVWXYZ''"

definition lowerLetters :: string where
  "lowerLetters = ''abcdefghijklmnopqrstuvwxyz''"

definition digits :: string where
  "digits = ''0123456789''"

definition isLetter :: "char \<Rightarrow> bool" where
  "isLetter c = (c \<in> set (lowerLetters @ upperLetters))"

text \<open>The class \<^verbatim>\<open>\w\<close>: letters, digits and the underscore.\<close>

definition isWordChar :: "char \<Rightarrow> bool" where
  "isWordChar c = (isLetter c \<or> c \<in> set digits \<or> c = CHR ''_'')"

text \<open>The capital letters of the Latin-1 supplement, and their small letters.\<close>

definition upperLatin1 :: string where
  "upperLatin1 =
     [CHR 0xC0, CHR 0xC1, CHR 0xC2, CHR 0xC3, CHR 0xC4, CHR 0xC5, CHR 0xC6, CHR 0xC7,
      CHR 0xC8, CHR 0xC9, CHR 0xCA, CHR 0xCB, CHR 0xCC, CHR 0xCD, CHR 0xCE, CHR 0xCF,
      CHR 0xD0, CHR 0xD1, CHR 0xD2, CHR 0xD3, CHR 0xD4, CHR 0xD5, CHR 0xD6,
      CHR 0xD8, CHR 0xD9, CHR 0xDA, CHR 0xDB, CHR 0xDC, CHR 0xDD, CHR 0xDE]"

definition lowerLatin1 :: string where
  "lowerLatin1 =
     [CHR 0xE0, CHR 0xE1, CHR 0xE2, CHR 0xE3, CHR 0xE4, CHR 0xE5, CHR 0xE6, CHR 0xE7,
      CHR 0xE8, CHR 0xE9, CHR 0xEA, CHR 0xEB, CHR 0xEC, CHR 0xED, CHR 0xEE, CHR 0xEF,
      CHR 0xF0, CHR 0xF1, CHR 0xF2, CHR 0xF3, CHR 0xF4, CHR 0xF5, CHR 0xF6,
      CHR 0xF8, CHR 0xF9, CHR 0xFA, CHR 0xFB, CHR 0xFC, CHR 0xFD, CHR 0xFE]"

definition toLowerChar :: "char \<Rightarrow> char" where
  "toLowerChar c =
     (case map_of (zip (upperLetters @ upperLatin1) (lowerLetters @ lowerLatin1)) c of
        Some d \<Rightarrow> d
      | None \<Rightarrow> c)"

definition toLowerCase :: "string \<Rightarrow> string" where
  "toLowerCase s = map toLowerChar s"

definition trimStart :: "string \<Rightarrow> string" where
  "trimStart s = dropWhile isSpace s"

definition trimEnd :: "string \<Rightarrow> string" where
  "trimEnd s = rev (dropWhile isSpace (rev s))"

definition trim :: "string \<Rightarrow> string" where
  "trim s = trimEnd (trimStart s)"

text \<open>
  \<^verbatim>\<open>s.split(c)\<close> for a one-character separator: one more piece than there are
  separators, empty pieces kept, and \<^verbatim>\<open>''.split(c)\<close> is the one empty piece.
\<close>

fun split_on :: "char \<Rightarrow> string \<Rightarrow> string list" where
  "split_on c [] = [[]]"
| "split_on c (x # xs) =
     (if x = c then [] # split_on c xs
      else (case split_on c xs of [] \<Rightarrow> [[x]] | p # ps \<Rightarrow> (x # p) # ps))"

text \<open>The longest suffix of characters of a class: what \<^verbatim>\<open>/([class]+)$/\<close> captures.\<close>

definition takeWhileEnd :: "(char \<Rightarrow> bool) \<Rightarrow> string \<Rightarrow> string" where
  "takeWhileEnd P s = rev (takeWhile P (rev s))"

section \<open>Qualified identifiers (src/util/sqlParser.ts)\<close>

record QualifiedIdentifierParts =
  database :: "string option"
  schema :: "string option"
  object :: "string option"

text \<open>\<^verbatim>\<open>value.replace(/[\[\]]/g, '')\<close>\<close>

definition stripBrackets :: "string \<Rightarrow> string" where
  "stripBrackets v = filter (\<lambda>c. c \<noteq> CHR ''['' \<and> c \<noteq> CHR '']'') v"

text \<open>
  \<^verbatim>\<open>if (!value) return undefined\<close> takes the absent value and the empty string alike;
  then the value is trimmed and an empty result is absent.
\<close>

definition normalizeIdentifierPart :: "string option \<Rightarrow> string option" where
  "normalizeIdentifierPart v =
     (case v of
        None \<Rightarrow> None
      | Some s \<Rightarrow>
          if s = [] then None
          else (let trimmed = trim s in if length trimmed \<noteq> 0 then Some trimmed else None))"

text \<open>
  The loop of \<^verbatim>\<open>tokenizeQualifiedIdentifier\<close> over the characters, with its three
  variables \<^verbatim>\<open>parts\<close>, \<^verbatim>\<open>current\<close> and \<^verbatim>\<open>bracketDepth\<close>; the last equation is the
  code after the loop. On natural numbers \<open>d - 1\<close> is \<^verbatim>\<open>Math.max(0, d - 1)\<close>.
\<close>

definition pushPart :: "string list \<Rightarrow> string \<Rightarrow> string list" where
  "pushPart parts current =
     (if length (trim current) > 0 then parts @ [trim current] else parts)"

fun tokenizeLoop :: "string \<Rightarrow> string list \<Rightarrow> string \<Rightarrow> nat \<Rightarrow> string list" where
  "tokenizeLoop [] parts current bracketDepth = pushPart parts current"
| "tokenizeLoop (c # cs) parts current bracketDepth =
     (if c = CHR ''['' then tokenizeLoop cs parts (current @ [c]) (bracketDepth + 1)
      else if c = CHR '']'' then tokenizeLoop cs parts (current @ [c]) (bracketDepth - 1)
      else if c = CHR ''.'' \<and> bracketDepth = 0
           then tokenizeLoop cs (pushPart parts current) [] bracketDepth
      else tokenizeLoop cs parts (current @ [c]) bracketDepth)"

definition tokenizeQualifiedIdentifier :: "string \<Rightarrow> string list" where
  "tokenizeQualifiedIdentifier identifier = tokenizeLoop identifier [] [] 0"

text \<open>
  \<^verbatim>\<open>parts.pop()\<close> takes the last element off; the three pops are written with
  \<open>last\<close> and \<open>butlast\<close>, each guarded as in the source.
\<close>

definition parseQualifiedIdentifier :: "string \<Rightarrow> QualifiedIdentifierParts" where
  "parseQualifiedIdentifier identifier =
     (let parts = tokenizeQualifiedIdentifier identifier in
      if parts = [] then \<lparr>database = None, schema = None, object = None\<rparr>
      else
        (let obj = stripBrackets (last parts);
             parts1 = butlast parts;
             sch = (if parts1 \<noteq> [] then Some (stripBrackets (last parts1)) else None);
             parts2 = (if parts1 \<noteq> [] then butlast parts1 else parts1);
             db = (if parts2 \<noteq> [] then Some (stripBrackets (last parts2)) else None)
         in \<lparr>database = normalizeIdentifierPart db,
             schema = normalizeIdentifierPart sch,
             object = normalizeIdentifierPart (Some obj)\<rparr>))"

text \<open>
  What the specification says of one resolved part, in its words: bracket characters
  stripped, whitespace trimmed, and absent when nothing is left.
\<close>

definition resolved_part_spec :: "string \<Rightarrow> string option" where
  "resolved_part_spec token =
     (let v = trim (filter (\<lambda>c. c \<notin> {CHR ''['', CHR '']''}) token)
      in if v = [] then None else Some v)"

definition clean_part :: "string \<Rightarrow> bool" where
  "clean_part v \<longleftrightarrow>
     v \<noteq> [] \<and> CHR ''['' \<notin> set v \<and> CHR '']'' \<notin> set v \<and>
     \<not> isSpace (hd v) \<and> \<not> isSpace (last v)"


section \<open>Completion context (src/util/sqlParser.ts)\<close>

datatype CompletionContextType = Schema | Table | Column | Routine | Keyword

datatype RoutineCategory = CatProcedure | CatFunction | CatView | CatAny

record CompletionContextResult =
  type :: CompletionContextType
  prefix :: string
  owner :: "string option"
  alias' :: "string option"
  routineCategory :: "RoutineCategory option"

definition TABLE_KEYWORDS :: "string list" where
  "TABLE_KEYWORDS = [''from'', ''join'', ''update'', ''into'']"

definition ROUTINE_KEYWORDS :: "string list" where
  "ROUTINE_KEYWORDS = [''exec'', ''execute'', ''call'']"

subsection \<open>The regular expressions of the routine context\<close>

text \<open>
  The two expressions of \<^verbatim>\<open>detectRoutineContext\<close> are
  \<^verbatim>\<open>/\b(exec(?:ute)?|call)\s+([\w\[\]\.\s]*)$/i\<close> and
  \<^verbatim>\<open>/\b(?:create\s+or\s+alter|create|alter|drop)\s+(procedure|proc|function|view)\s+([\w\[\]\.\s]*)$/i\<close>.
  They are written as matchers on the text that starts at the position tried: a matcher
  returns what is left of the text, or the captured groups. \<^verbatim>\<open>\s+\<close> is greedy, and
  since what follows it is a letter or the last group, which runs to the end of the
  text and accepts whitespace, giving back whitespace never turns a failure into a
  match: the run is taken whole. The alternatives are tried in the order of the
  expression, \<^verbatim>\<open>exec(?:ute)?\<close> with the optional part first.
\<close>

definition isTokenChar :: "char \<Rightarrow> bool" where
  "isTokenChar c = (isWordChar c \<or> c = CHR ''['' \<or> c = CHR '']'' \<or> c = CHR ''.'')"

definition isRoutineNameChar :: "char \<Rightarrow> bool" where
  "isRoutineNameChar c = (isTokenChar c \<or> isSpace c)"

fun first_some :: "('a \<Rightarrow> 'b option) \<Rightarrow> 'a list \<Rightarrow> 'b option" where
  "first_some f [] = None"
| "first_some f (x # xs) = (case f x of Some y \<Rightarrow> Some y | None \<Rightarrow> first_some f xs)"

text \<open>A literal of the expression under the flag \<^verbatim>\<open>i\<close>; \<open>k\<close> is in lower case.\<close>

definition lit :: "string \<Rightarrow> string \<Rightarrow> string option" where
  "lit k s = (if toLowerCase (take (length k) s) = k then Some (drop (length k) s) else None)"

text \<open>\<^verbatim>\<open>\s+\<close>\<close>

definition ws1 :: "string \<Rightarrow> string option" where
  "ws1 s = (case s of [] \<Rightarrow> None
            | c # cs \<Rightarrow> if isSpace c then Some (dropWhile isSpace cs) else None)"

text \<open>\<^verbatim>\<open>([\w\[\]\.\s]*)$\<close>\<close>

definition nameTail :: "string \<Rightarrow> string option" where
  "nameTail s = (if list_all isRoutineNameChar s then Some s else None)"

definition execAt :: "string \<Rightarrow> string option" where
  "execAt s =
     first_some (\<lambda>k. Option.bind (lit k s) (\<lambda>r. Option.bind (ws1 r) nameTail))
       [''execute'', ''exec'', ''call'']"

definition ddlTail :: "string \<Rightarrow> (string \<times> string) option" where
  "ddlTail s =
     Option.bind (ws1 s) (\<lambda>r.
       first_some (\<lambda>k.
           Option.bind (lit k r) (\<lambda>r2.
             Option.bind (ws1 r2) (\<lambda>r3.
               map_option (\<lambda>g. (take (length k) r, g)) (nameTail r3))))
         [''procedure'', ''proc'', ''function'', ''view''])"

definition createOrAlter :: "string \<Rightarrow> string option" where
  "createOrAlter s =
     Option.bind (lit ''create'' s) (\<lambda>r1.
       Option.bind (ws1 r1) (\<lambda>r2.
         Option.bind (lit ''or'' r2) (\<lambda>r3.
           Option.bind (ws1 r3) (lit ''alter''))))"

definition ddlAt :: "string \<Rightarrow> (string \<times> string) option" where
  "ddlAt s =
     first_some (\<lambda>verb. Option.bind (verb s) ddlTail)
       [createOrAlter, lit ''create'', lit ''alter'', lit ''drop'']"

text \<open>
  \<^verbatim>\<open>RegExp.prototype.exec\<close> tries the positions from left to right and returns the
  first match. \<^verbatim>\<open>\b\<close> stands before a keyword, whose first character is a letter, so it
  holds where the character before is not of \<^verbatim>\<open>\w\<close> (\<open>prevWord\<close> is false at the
  start of the text); no keyword matches at the end of the text.
\<close>

fun searchFrom :: "(string \<Rightarrow> 'a option) \<Rightarrow> bool \<Rightarrow> string \<Rightarrow> 'a option" where
  "searchFrom m prevWord [] = None"
| "searchFrom m prevWord (c # cs) =
     (case (if prevWord then None else m (c # cs)) of
        Some r \<Rightarrow> Some r
      | None \<Rightarrow> searchFrom m (isWordChar c) cs)"

subsection \<open>Routine tokens\<close>

text \<open>
  \<^verbatim>\<open>replace(/\s*\.\s*/g, '.')\<close>: at each position from the left, a run of whitespace
  followed by a dot is replaced together with the whitespace after the dot; where the
  run is not followed by a dot, the character is kept and the next position is tried.
\<close>

function normalizeDots :: "string \<Rightarrow> string" where
  "normalizeDots [] = []"
| "normalizeDots (c # cs) =
     (case dropWhile isSpace (c # cs) of
        [] \<Rightarrow> c # normalizeDots cs
      | d # r \<Rightarrow> if d = CHR ''.'' then CHR ''.'' # normalizeDots (dropWhile isSpace r)
                 else c # normalizeDots cs)"
  by pat_completeness auto
termination
proof (relation "measure length")
  show "wf (measure length)" by simp
next
  fix c cs d r
  assume a: "dropWhile isSpace (c # cs) = d # r"
  have "length (dropWhile isSpace r) \<le> length r" by (rule length_dropWhile_le)
  moreover have "length (d # r) \<le> length (c # cs)"
    unfolding a [symmetric] by (rule length_dropWhile_le)
  ultimately show "(dropWhile isSpace r, c # cs) \<in> measure length" by simp
qed simp_all

text \<open>
  The loop \<^verbatim>\<open>while (parts.length > 0 && !schemaPart)\<close> of \<^verbatim>\<open>parseRoutineToken\<close>; the
  argument is the stack of parts left, the top first.
\<close>

fun popSchema :: "string list \<Rightarrow> string option" where
  "popSchema [] = None"
| "popSchema (candidate # rest) = (if candidate \<noteq> [] then Some candidate else popSchema rest)"

text \<open>The result is the pair of the fields \<^verbatim>\<open>schema\<close> and \<^verbatim>\<open>prefix\<close>.\<close>

definition parseRoutineToken :: "string \<Rightarrow> string option \<times> string" where
  "parseRoutineToken token =
     (let trimmed = trim token in
      if trimmed = [] then (None, [])
      else
        (let withoutBrackets = stripBrackets trimmed;
             normalized = normalizeDots withoutBrackets;
             parts = split_on (CHR ''.'') normalized;
             prefixPart = last parts;
             schemaPart = popSchema (rev (butlast parts))
         in (schemaPart, prefixPart)))"

text \<open>
  What the specification says of the owner, in its words: the rightmost-but-one of
  the dotted segments typed so far, and no owner when a single segment is typed.
\<close>

definition owner_spec :: "string \<Rightarrow> string option" where
  "owner_spec token =
     (let segments = split_on (CHR ''.'') token in
      if length segments < 2 then None else Some (segments ! (length segments - 2)))"

definition buildRoutineContext :: "string \<Rightarrow> RoutineCategory \<Rightarrow> CompletionContextResult" where
  "buildRoutineContext token category =
     (case parseRoutineToken token of
        (sch, pre) \<Rightarrow>
          \<lparr>type = Routine, prefix = pre, owner = sch, alias' = None,
           routineCategory = Some category\<rparr>)"

definition determineRoutineCategory :: "string \<Rightarrow> RoutineCategory" where
  "determineRoutineCategory keyword =
     (let lower = toLowerCase keyword in
      if lower = ''view'' then CatView
      else if lower = ''function'' then CatFunction
      else CatProcedure)"

definition detectRoutineContext :: "string \<Rightarrow> CompletionContextResult option" where
  "detectRoutineContext linePrefix =
     (case searchFrom execAt False linePrefix of
        Some token \<Rightarrow> Some (buildRoutineContext token CatProcedure)
      | None \<Rightarrow>
          (case searchFrom ddlAt False linePrefix of
             Some (keyword, token) \<Rightarrow>
               Some (buildRoutineContext token (determineRoutineCategory keyword))
           | None \<Rightarrow> None))"

subsection \<open>The other contexts\<close>

text \<open>\<^verbatim>\<open>/([\w\]\[]+)$/\<close> on the text without its last character.\<close>

definition extractOwnerBeforeDot :: "string \<Rightarrow> string" where
  "extractOwnerBeforeDot text =
     (let withoutTrailingDot = butlast text
      in stripBrackets
           (takeWhileEnd (\<lambda>c. isWordChar c \<or> c = CHR '']'' \<or> c = CHR ''['') withoutTrailingDot))"

text \<open>
  \<^verbatim>\<open>/([A-Za-z_][\w\$]*)$/i\<close>: the match ends the text, so it lies in the longest
  suffix of \<^verbatim>\<open>[\w\$]\<close>, and it starts at the first letter or underscore there.
\<close>

definition getLastWord :: "string \<Rightarrow> string" where
  "getLastWord pre =
     dropWhile (\<lambda>c. \<not> (isLetter c \<or> c = CHR ''_''))
       (takeWhileEnd (\<lambda>c. isWordChar c \<or> c = CHR ''$'') pre)"

text \<open>\<^verbatim>\<open>/([\w\[\]\.]+)$/\<close>\<close>

definition getLastToken :: "string \<Rightarrow> string" where
  "getLastToken pre = takeWhileEnd isTokenChar pre"

definition splitToken :: "string \<Rightarrow> string option \<times> string option" where
  "splitToken token =
     (if CHR ''.'' \<notin> set token then (None, Some token)
      else (Some (rev (tl (dropWhile (\<lambda>c. c \<noteq> CHR ''.'') (rev token)))),
            Some (takeWhileEnd (\<lambda>c. c \<noteq> CHR ''.'') token)))"

definition orEmpty :: "string option \<Rightarrow> string" where
  "orEmpty v = (case v of None \<Rightarrow> [] | Some s \<Rightarrow> s)"

text \<open>
  \<^verbatim>\<open>analyzeCompletionContext\<close> reads the document only through
  \<^verbatim>\<open>document.lineAt(position.line).text.substring(0, position.character)\<close>; the model
  takes the text of that line and the character offset.
\<close>

definition analyzeCompletionContext :: "string \<Rightarrow> nat \<Rightarrow> CompletionContextResult" where
  "analyzeCompletionContext lineText character =
     (let linePrefix = take character lineText in
      case detectRoutineContext linePrefix of
        Some routineContext \<Rightarrow> routineContext
      | None \<Rightarrow>
          (let trimmedPrefix = trimEnd linePrefix in
           if trimmedPrefix \<noteq> [] \<and> last trimmedPrefix = CHR ''.'' then
             (let own = extractOwnerBeforeDot trimmedPrefix in
              \<lparr>type = Column, prefix = [], owner = Some own, alias' = Some own,
               routineCategory = None\<rparr>)
           else
             (let token = getLastToken trimmedPrefix in
              if CHR ''.'' \<in> set token then
                (case splitToken token of
                   (ownerPart, partial) \<Rightarrow>
                     (let own = orEmpty (map_option stripBrackets ownerPart) in
                      \<lparr>type = Column, prefix = orEmpty (map_option stripBrackets partial),
                       owner = Some own, alias' = Some own, routineCategory = None\<rparr>))
              else
                (let prefixWord = getLastWord trimmedPrefix;
                     lowerWord = toLowerCase prefixWord in
                 if lowerWord \<in> set TABLE_KEYWORDS then
                   \<lparr>type = Table, prefix = [], owner = None, alias' = None,
                    routineCategory = None\<rparr>
                 else if lowerWord \<in> set ROUTINE_KEYWORDS then
                   \<lparr>type = Routine, prefix = [], owner = None, alias' = None,
                    routineCategory = None\<rparr>
                 else if lowerWord = ''select'' \<or> lowerWord = ''where'' \<or> lowerWord = ''and''
                         \<or> lowerWord = ''or'' then
                   \<lparr>type = Keyword, prefix = [], owner = None, alias' = None,
                    routineCategory = None\<rparr>
                 else if trimEnd trimmedPrefix \<noteq> []
                         \<and> last (trimEnd trimmedPrefix) \<in> set '',()'' then
                   \<lparr>type = Column, prefix = [], owner = None, alias' = None,
                    routineCategory = None\<rparr>
                 else
                   \<lparr>type = Table, prefix = prefixWord, owner = None, alias' = None,
                    routineCategory = None\<rparr>))))"

section \<open>Wildcards (src/util/sqlParser.ts)\<close>













section \<open>JavaScript values\<close>

text \<open>
  A cell of a result row is \<^verbatim>\<open>unknown\<close> in the source. The model has the absent
  value, \<^verbatim>\<open>null\<close>, booleans, numbers, strings and one value \<open>JObject\<close> for an object
  (\<^verbatim>\<open>convertRow\<close> stores the cell object itself when it has no value). Numbers are
  integers: the catalog columns converted by \<^verbatim>\<open>toNumber\<close> (\<^verbatim>\<open>max_length\<close>,
  \<^verbatim>\<open>precision\<close>, \<^verbatim>\<open>scale\<close>) are integer columns. \<^verbatim>\<open>Number\<close> of a string is the
  integer it writes in decimal; every other string, among them the fractions and the
  exponent and hexadecimal forms that JavaScript would read, is \<^verbatim>\<open>NaN\<close> in the model.
  A number is written in plain decimal, as JavaScript writes the integers below
  \<open>10\<^sup>2\<^sup>1\<close> in size.
\<close>

datatype jsval = JUndefined | JNull | JBool bool | JNum int | JStr string | JObject

type_synonym QueryRow = "string \<Rightarrow> jsval option"

record QueryResult =
  columns :: "string list"
  rows :: "QueryRow list"

text \<open>\<^verbatim>\<open>row[k]\<close>\<close>

definition get :: "QueryRow \<Rightarrow> string \<Rightarrow> jsval" where
  "get row k = (case row k of None \<Rightarrow> JUndefined | Some v \<Rightarrow> v)"

text \<open>\<^verbatim>\<open>v ?? d\<close>\<close>

definition nullish :: "jsval \<Rightarrow> jsval \<Rightarrow> jsval" where
  "nullish v d = (if v = JUndefined \<or> v = JNull then d else v)"

definition digitChar :: "nat \<Rightarrow> char" where
  "digitChar d = digits ! d"

fun showNat :: "nat \<Rightarrow> string" where
  "showNat n = (if n < 10 then [digitChar n] else showNat (n div 10) @ [digitChar (n mod 10)])"

declare showNat.simps [simp del]

text \<open>The decimal form of an integer, as a template literal writes a number.\<close>

definition showInt :: "int \<Rightarrow> string" where
  "showInt i = (if i < 0 then CHR ''-'' # showNat (nat (- i)) else showNat (nat i))"

definition digitValue :: "char \<Rightarrow> nat option" where
  "digitValue c = map_of (zip digits [0 ..< 10]) c"

fun parseDigits :: "nat \<Rightarrow> string \<Rightarrow> nat option" where
  "parseDigits acc [] = Some acc"
| "parseDigits acc (c # cs) =
     (case digitValue c of None \<Rightarrow> None | Some d \<Rightarrow> parseDigits (acc * 10 + d) cs)"

definition parseNat :: "string \<Rightarrow> nat option" where
  "parseNat ds = (if ds = [] then None else parseDigits 0 ds)"

text \<open>\<^verbatim>\<open>Number(s)\<close> of a string; \<open>None\<close> is \<^verbatim>\<open>NaN\<close>. The empty string is 0.\<close>

definition parseNumber :: "string \<Rightarrow> int option" where
  "parseNumber s =
     (let t = trim s in
      case t of
        [] \<Rightarrow> Some 0
      | c # ds \<Rightarrow>
          if c = CHR ''-'' then map_option (\<lambda>n. - int n) (parseNat ds)
          else if c = CHR ''+'' then map_option int (parseNat ds)
          else map_option int (parseNat t))"

text \<open>\<^verbatim>\<open>Number(v)\<close>\<close>

fun Number :: "jsval \<Rightarrow> int option" where
  "Number JUndefined = None"
| "Number JNull = Some 0"
| "Number (JBool b) = Some (if b then 1 else 0)"
| "Number (JNum n) = Some n"
| "Number (JStr s) = parseNumber s"
| "Number JObject = None"

text \<open>\<^verbatim>\<open>String(v)\<close>\<close>

fun String :: "jsval \<Rightarrow> string" where
  "String JUndefined = ''undefined''"
| "String JNull = ''null''"
| "String (JBool b) = (if b then ''true'' else ''false'')"
| "String (JNum n) = showInt n"
| "String (JStr s) = s"
| "String JObject = ''[object Object]''"

text \<open>\<^verbatim>\<open>Boolean(v)\<close>, the test of \<^verbatim>\<open>v ? a : b\<close> and of \<^verbatim>\<open>!v\<close>\<close>

fun truthy :: "jsval \<Rightarrow> bool" where
  "truthy JUndefined = False"
| "truthy JNull = False"
| "truthy (JBool b) = b"
| "truthy (JNum n) = (n \<noteq> 0)"
| "truthy (JStr s) = (s \<noteq> [])"
| "truthy JObject = True"

text \<open>An optional string is truthy when it is there and not empty.\<close>

definition truthyString :: "string option \<Rightarrow> bool" where
  "truthyString v = (case v of None \<Rightarrow> False | Some s \<Rightarrow> s \<noteq> [])"

section \<open>Catalog queries (src/metadata/queries.ts)\<close>

definition apostrophe :: char where
  "apostrophe = CHR 0x27"

text \<open>\<^verbatim>\<open>value.replace(/'/g, "''").replace(/\]/g, ']]')\<close>\<close>

definition escapeSqlLiteral :: "string \<Rightarrow> string" where
  "escapeSqlLiteral v =
     concat (map (\<lambda>c. if c = CHR '']'' then [c, c] else [c])
       (concat (map (\<lambda>c. if c = apostrophe then [c, c] else [c]) v)))"

definition escapeSqlIdentifier :: "string \<Rightarrow> string" where
  "escapeSqlIdentifier v = concat (map (\<lambda>c. if c = CHR '']'' then [c, c] else [c]) v)"

definition qualifyIdentifier :: "string \<Rightarrow> string \<Rightarrow> string option \<Rightarrow> string" where
  "qualifyIdentifier sch obj db =
     (let databasePart = (if truthyString db then ''['' @ escapeSqlIdentifier (the db) @ ''].'' else []);
          schemaPart = ''['' @ escapeSqlIdentifier sch @ '']'';
          objectPart = ''['' @ escapeSqlIdentifier obj @ '']''
      in databasePart @ schemaPart @ ''.'' @ objectPart)"

definition qualifyCatalogScope :: "string option \<Rightarrow> string" where
  "qualifyCatalogScope db =
     (if truthyString db then ''['' @ escapeSqlIdentifier (the db) @ ''].'' else [])"

definition allObjectsQuery :: "string option \<Rightarrow> string" where
  "allObjectsQuery db =
     (let scope = qualifyCatalogScope db in
       ''\<newline>''
       @ ''SELECT\<newline>''
       @ ''    s.name AS schema_name,\<newline>''
       @ ''    o.name AS object_name,\<newline>''
       @ ''    o.type AS object_type,\<newline>''
       @ ''    o.type_desc AS object_type_desc\<newline>''
       @ ''FROM '' @ scope @ ''sys.objects AS o\<newline>''
       @ ''INNER JOIN '' @ scope @ ''sys.schemas AS s ON s.schema_id = o.schema_id\<newline>''
       @ ''WHERE o.type IN ('' @ [apostrophe] @ ''U'' @ [apostrophe] @ '', '' @ [apostrophe] @ ''V'' @ [apostrophe] @ '', '' @ [apostrophe] @ ''P'' @ [apostrophe] @ '', '' @ [apostrophe] @ ''FN'' @ [apostrophe] @ '', '' @ [apostrophe] @ ''IF'' @ [apostrophe] @ '', '' @ [apostrophe] @ ''TF'' @ [apostrophe] @ '')\<newline>''
       @ ''ORDER BY s.name, o.name;\<newline>'')"

definition columnsForObjectQuery :: "string \<Rightarrow> string \<Rightarrow> string option \<Rightarrow> string" where
  "columnsForObjectQuery sch obj db =
     (let identifier = qualifyIdentifier sch obj db;
          scope = qualifyCatalogScope db in
       ''\<newline>''
       @ ''SELECT\<newline>''
       @ ''    c.name AS column_name,\<newline>''
       @ ''    t.NAME AS data_type,\<newline>''
       @ ''    c.max_length AS max_length,\<newline>''
       @ ''    c.precision,\<newline>''
       @ ''    c.scale,\<newline>''
       @ ''    c.is_nullable,\<newline>''
       @ ''    ep.value AS description\<newline>''
       @ ''FROM '' @ scope @ ''sys.columns AS c\<newline>''
       @ ''INNER JOIN '' @ scope @ ''sys.types AS t ON t.user_type_id = c.user_type_id\<newline>''
       @ ''LEFT JOIN '' @ scope @ ''sys.extended_properties AS ep ON ep.major_id = c.object_id AND ep.minor_id = c.column_id AND ep.name = '' @ [apostrophe] @ ''MS_Description'' @ [apostrophe] @ ''\<newline>''
       @ ''WHERE c.object_id = OBJECT_ID(N'' @ [apostrophe] @ identifier @ [apostrophe] @ '')\<newline>''
       @ ''ORDER BY c.column_id;\<newline>'')"

text \<open>
  The names of the result columns of \<^verbatim>\<open>columnsForObjectQuery\<close>, read off its select
  list: the alias after \<^verbatim>\<open>AS\<close>, and the column name where there is no alias.
\<close>

definition columnsForObjectQuery_select :: "string list" where
  "columnsForObjectQuery_select =
     [''column_name'', ''data_type'', ''max_length'', ''precision'', ''scale'',
      ''is_nullable'', ''description'']"

definition extendedPropertyDescriptionQuery :: "string \<Rightarrow> string \<Rightarrow> string option \<Rightarrow> string" where
  "extendedPropertyDescriptionQuery sch obj db =
     (let scope = qualifyCatalogScope db in
       ''\<newline>''
       @ ''SELECT CAST(ep.value AS NVARCHAR(MAX)) AS description\<newline>''
       @ ''FROM '' @ scope @ ''sys.fn_listextendedproperty('' @ [apostrophe] @ ''MS_Description'' @ [apostrophe] @ '', '' @ [apostrophe] @ ''SCHEMA'' @ [apostrophe] @ '', N'' @ [apostrophe] @ escapeSqlLiteral sch @ [apostrophe] @ '', '' @ [apostrophe] @ ''TABLE'' @ [apostrophe] @ '', N'' @ [apostrophe] @ escapeSqlLiteral obj @ [apostrophe] @ '', NULL, NULL);\<newline>'')"

definition foreignKeysQuery :: "string option \<Rightarrow> string" where
  "foreignKeysQuery db =
     (let scope = qualifyCatalogScope db in
       ''\<newline>''
       @ ''SELECT\<newline>''
       @ ''    fk.name AS constraint_name,\<newline>''
       @ ''    sch_parent.name AS parent_schema,\<newline>''
       @ ''    parent_object.name AS parent_table,\<newline>''
       @ ''    sch_ref.name AS referenced_schema,\<newline>''
       @ ''    referenced_object.name AS referenced_table,\<newline>''
       @ ''    parent_column.name AS parent_column,\<newline>''
       @ ''    referenced_column.name AS referenced_column\<newline>''
       @ ''FROM '' @ scope @ ''sys.foreign_keys AS fk\<newline>''
       @ ''INNER JOIN '' @ scope @ ''sys.foreign_key_columns AS fkc ON fkc.constraint_object_id = fk.object_id\<newline>''
       @ ''INNER JOIN '' @ scope @ ''sys.tables AS parent_object ON parent_object.object_id = fk.parent_object_id\<newline>''
       @ ''INNER JOIN '' @ scope @ ''sys.schemas AS sch_parent ON sch_parent.schema_id = parent_object.schema_id\<newline>''
       @ ''INNER JOIN '' @ scope @ ''sys.tables AS referenced_object ON referenced_object.object_id = fk.referenced_object_id\<newline>''
       @ ''INNER JOIN '' @ scope @ ''sys.schemas AS sch_ref ON sch_ref.schema_id = referenced_object.schema_id\<newline>''
       @ ''INNER JOIN '' @ scope @ ''sys.columns AS parent_column ON parent_column.object_id = fk.parent_object_id AND parent_column.column_id = fkc.parent_column_id\<newline>''
       @ ''INNER JOIN '' @ scope @ ''sys.columns AS referenced_column ON referenced_column.object_id = fk.referenced_object_id AND referenced_column.column_id = fkc.referenced_column_id;\<newline>'')"

section \<open>The connection and the loader (src/mssqlApi.ts)\<close>

record MssqlConnection =
  connectionId :: "string option"
  server :: "string option"
  conn_database :: "string option"
  user :: "string option"

text \<open>\<^verbatim>\<open>parts.join('|')\<close>\<close>

fun joinBar :: "string list \<Rightarrow> string" where
  "joinBar [] = []"
| "joinBar [p] = p"
| "joinBar (p # q # ps) = p @ ''|'' @ joinBar (q # ps)"

definition getConnectionKey :: "MssqlConnection option \<Rightarrow> string option" where
  "getConnectionKey connection =
     (case connection of
        None \<Rightarrow> None
      | Some c \<Rightarrow>
          (let parts = map the
                 (filter (\<lambda>part. case part of None \<Rightarrow> False | Some p \<Rightarrow> length (trim p) > 0)
                    [connectionId c, server c, conn_database c, user c])
           in if parts \<noteq> [] then Some (joinBar parts) else None))"

record CancellationToken =
  isCancellationRequested :: bool

text \<open>
  \<^verbatim>\<open>MssqlApi.runQuery\<close> sends the query to the server through the MSSQL extension, and
  \<^verbatim>\<open>Date.now()\<close> reads the clock. Both are outside the program: the environment says
  what they answer at each moment, a moment being the number of queries sent so far.
  \<open>None\<close> is the answer \<^verbatim>\<open>undefined\<close> of a query that failed or was cancelled. Every call
  of the cache passes \<^verbatim>\<open>useLegacyFallback: false\<close>, which is left out.
\<close>

record Environment =
  runQuery :: "nat \<Rightarrow> string \<Rightarrow> CancellationToken option \<Rightarrow> QueryResult option"
  dateNow :: "nat \<Rightarrow> nat"

section \<open>The schema cache (src/metadata/schemaCache.ts)\<close>

text \<open>
  Fields that several interfaces of the source share are told apart by a prefix:
  \<open>t_\<close> for \<^verbatim>\<open>TableMetadata\<close>, \<open>c_\<close> for \<^verbatim>\<open>ColumnMetadata\<close>, \<open>r_\<close> for
  \<^verbatim>\<open>RoutineMetadata\<close>, \<open>p_\<close> for \<^verbatim>\<open>RoutineParameter\<close>.
\<close>

datatype TableType = TABLE | VIEW

datatype RoutineType = PROCEDURE | FUNCTION

record ColumnMetadata =
  c_name :: string
  dataType :: string
  maxLength :: "int option"
  precision :: "int option"
  scale :: "int option"
  isNullable :: bool
  c_description :: "string option"
  isIdentity :: bool
  isComputed :: bool
  isRowGuid :: bool
  defaultExpression :: "string option"

text \<open>
  \<^verbatim>\<open>description\<close> holds the value that \<^verbatim>\<open>runScalar\<close> returned, which the cast
  \<^verbatim>\<open>as T\<close> does not convert.
\<close>

record TableMetadata =
  t_schema :: string
  t_name :: string
  t_type :: TableType
  t_description :: "jsval option"
  t_columns :: "ColumnMetadata list option"

record RoutineParameter =
  p_name :: string
  p_dataType :: string
  p_maxLength :: "int option"
  p_precision :: "int option"
  p_scale :: "int option"
  isOutput :: bool

record RoutineMetadata =
  r_schema :: string
  r_name :: string
  r_type :: RoutineType
  definition' :: "jsval option"
  parameters :: "RoutineParameter list option"

record ForeignKeyRelation =
  constraint' :: string
  parentSchema :: string
  parentTable :: string
  parentColumn :: string
  referencedSchema :: string
  referencedTable :: string
  referencedColumn :: string

text \<open>
  A \<^verbatim>\<open>Map\<close> whose values are listed in insertion order is an association list;
  \<^verbatim>\<open>Map.set\<close> is \<^const>\<open>AList.update\<close>, which replaces the value of a key in place and
  adds a new key at the end, and \<^verbatim>\<open>Map.get\<close> is \<^const>\<open>map_of\<close>.
\<close>

record CacheEntry =
  tables :: "(string \<times> TableMetadata) list"
  routines :: "(string \<times> RoutineMetadata) list"
  foreignKeys :: "ForeignKeyRelation list"
  timestamp :: nat

text \<open>
  The state of a \<^verbatim>\<open>SchemaCache\<close>: its map \<^verbatim>\<open>cache\<close>, and the queries it has sent
  to \<^verbatim>\<open>runQuery\<close>, the oldest first. The calls of the logger are left out: they write
  to the output channel and return nothing.
\<close>

record SchemaCacheState =
  cache :: "string \<Rightarrow> CacheEntry option"
  issued :: "string list"

record GetTableOptions =
  opt_database :: "string option"

definition dispose :: "SchemaCacheState \<Rightarrow> SchemaCacheState" where
  "dispose s = s\<lparr>cache := Map.empty\<rparr>"

definition invalidate :: "MssqlConnection option \<Rightarrow> SchemaCacheState \<Rightarrow> SchemaCacheState" where
  "invalidate connection s =
     (case getConnectionKey connection of
        None \<Rightarrow> s
      | Some key \<Rightarrow> if key \<noteq> [] then s\<lparr>cache := (cache s)(key := None)\<rparr> else s)"

definition toObjectKey :: "string \<Rightarrow> string \<Rightarrow> string" where
  "toObjectKey sch name = toLowerCase sch @ ''.'' @ toLowerCase name"

definition toNumber :: "jsval \<Rightarrow> int option" where
  "toNumber v = (if v = JNull \<or> v = JUndefined then None else Number v)"

definition toBoolean :: "jsval \<Rightarrow> bool" where
  "toBoolean v =
     (case v of
        JNum n \<Rightarrow> n \<noteq> 0
      | JStr s \<Rightarrow> (let normalized = toLowerCase (trim s)
                   in normalized = ''1'' \<or> normalized = ''true'')
      | _ \<Rightarrow> truthy v)"

definition formatDataType :: "QueryRow \<Rightarrow> string" where
  "formatDataType row =
     (let baseType = String (nullish (get row ''data_type'') (JStr []));
          prec = toNumber (get row ''precision'');
          scal = toNumber (get row ''scale'');
          maxLen = toNumber (get row ''max_length'')
      in if prec \<noteq> None \<and> scal \<noteq> None \<and> the prec > 0 then
           baseType @ ''('' @ showInt (the prec) @ '', '' @ showInt (the scal) @ '')''
         else if maxLen \<noteq> None \<and> the maxLen > 0
                 \<and> baseType \<notin> set [''ntext'', ''text'', ''image''] then
           (if the maxLen = - 1 then baseType @ ''(max)''
            else baseType @ ''('' @ showInt (the maxLen) @ '')'')
         else baseType)"

text \<open>
  The rule of the specification for the data type, in its words, with the example of
  the sentinel -1 that the specification gives for \<^verbatim>\<open>nvarchar(max)\<close>.
\<close>

definition formatDataType_spec :: "string \<Rightarrow> int option \<Rightarrow> int option \<Rightarrow> int option \<Rightarrow> string" where
  "formatDataType_spec base prec scal maxLen =
     (if prec \<noteq> None \<and> scal \<noteq> None \<and> the scal > 0 then
        base @ ''('' @ showInt (the prec) @ '', '' @ showInt (the scal) @ '')''
      else if maxLen = Some (- 1) \<and> base \<notin> set [''ntext'', ''text'', ''image''] then
        base @ ''(max)''
      else if maxLen \<noteq> None \<and> the maxLen > 0 \<and> base \<notin> set [''ntext'', ''text'', ''image''] then
        base @ ''('' @ showInt (the maxLen) @ '')''
      else base)"

text \<open>The function that \<^verbatim>\<open>populateColumns\<close> maps over the rows.\<close>

definition toColumnMetadata :: "QueryRow \<Rightarrow> ColumnMetadata" where
  "toColumnMetadata row =
     \<lparr>c_name = String (nullish (get row ''column_name'') (JStr [])),
      dataType = formatDataType row,
      maxLength = toNumber (get row ''max_length''),
      precision = toNumber (get row ''precision''),
      scale = toNumber (get row ''scale''),
      isNullable = toBoolean (get row ''is_nullable''),
      c_description = (if truthy (get row ''description'')
                       then Some (String (get row ''description'')) else None),
      isIdentity = toBoolean (get row ''is_identity''),
      isComputed = toBoolean (get row ''is_computed''),
      isRowGuid = toBoolean (get row ''is_rowguidcol''),
      defaultExpression = (if truthy (get row ''default_definition'')
                           then Some (String (get row ''default_definition'')) else None)\<rparr>"

text \<open>One call of \<^verbatim>\<open>this.api.runQuery\<close>: the answer of the moment, and the query noted.\<close>

definition api_runQuery ::
  "Environment \<Rightarrow> string \<Rightarrow> CancellationToken option \<Rightarrow> SchemaCacheState
     \<Rightarrow> QueryResult option \<times> SchemaCacheState" where
  "api_runQuery env query token s =
     (runQuery env (length (issued s)) query token, s\<lparr>issued := issued s @ [query]\<rparr>)"

text \<open>\<^verbatim>\<open>MssqlApi.runScalar\<close>: the first column of the first row.\<close>

definition api_runScalar ::
  "Environment \<Rightarrow> string \<Rightarrow> SchemaCacheState \<Rightarrow> jsval \<times> SchemaCacheState" where
  "api_runScalar env query s =
     (case api_runQuery env query None s of
        (result, s') \<Rightarrow>
          (case result of
             None \<Rightarrow> (JUndefined, s')
           | Some r \<Rightarrow>
               if length (rows r) = 0 \<or> length (columns r) = 0 then (JUndefined, s')
               else (get (hd (rows r)) (hd (columns r)), s')))"

text \<open>The loop of \<^verbatim>\<open>ensureCache\<close> over the rows of the object list.\<close>

fun loadObjects ::
  "QueryRow list \<Rightarrow> (string \<times> TableMetadata) list \<Rightarrow> (string \<times> RoutineMetadata) list
     \<Rightarrow> (string \<times> TableMetadata) list \<times> (string \<times> RoutineMetadata) list" where
  "loadObjects [] tbls rts = (tbls, rts)"
| "loadObjects (row # rest) tbls rts =
     (let objectSchema = trim (String (nullish (get row ''schema_name'') (JStr [])));
          objectName = trim (String (nullish (get row ''object_name'') (JStr [])));
          ty = trim (String (nullish (get row ''object_type'') (JStr [])))
      in if objectSchema = [] \<or> objectName = [] then loadObjects rest tbls rts
         else if ty = ''U'' \<or> ty = ''V'' then
           loadObjects rest
             (AList.update (toObjectKey objectSchema objectName)
                \<lparr>t_schema = objectSchema, t_name = objectName,
                 t_type = (if ty = ''U'' then TABLE else VIEW),
                 t_description = None, t_columns = None\<rparr> tbls)
             rts
         else if ty \<in> set [''P'', ''FN'', ''IF'', ''TF''] then
           loadObjects rest tbls
             (AList.update (toObjectKey objectSchema objectName)
                \<lparr>r_schema = objectSchema, r_name = objectName,
                 r_type = (if ty = ''P'' then PROCEDURE else FUNCTION),
                 definition' = None, parameters = None\<rparr> rts)
         else loadObjects rest tbls rts)"

definition toForeignKey :: "QueryRow \<Rightarrow> ForeignKeyRelation" where
  "toForeignKey row =
     \<lparr>constraint' = String (nullish (get row ''constraint_name'') (JStr [])),
      parentSchema = String (nullish (get row ''parent_schema'') (JStr [])),
      parentTable = String (nullish (get row ''parent_table'') (JStr [])),
      parentColumn = String (nullish (get row ''parent_column'') (JStr [])),
      referencedSchema = String (nullish (get row ''referenced_schema'') (JStr [])),
      referencedTable = String (nullish (get row ''referenced_table'') (JStr [])),
      referencedColumn = String (nullish (get row ''referenced_column'') (JStr []))\<rparr>"

text \<open>\<^verbatim>\<open>connection?.database\<close>\<close>

definition databaseOf :: "MssqlConnection option \<Rightarrow> string option" where
  "databaseOf connection = (case connection of None \<Rightarrow> None | Some c \<Rightarrow> conn_database c)"

text \<open>\<^verbatim>\<open>options?.database\<close>\<close>

definition optionDatabase :: "GetTableOptions option \<Rightarrow> string option" where
  "optionDatabase options = (case options of None \<Rightarrow> None | Some opt \<Rightarrow> opt_database opt)"

definition ensureCache ::
  "Environment \<Rightarrow> MssqlConnection option \<Rightarrow> CancellationToken option \<Rightarrow> SchemaCacheState
     \<Rightarrow> CacheEntry option \<times> SchemaCacheState" where
  "ensureCache env connection token s =
     (case getConnectionKey connection of
        None \<Rightarrow> (None, s)
      | Some key \<Rightarrow>
          if key = [] then (None, s)
          else
            (case cache s key of
               Some cached \<Rightarrow> (Some cached, s)
             | None \<Rightarrow>
                 (case api_runQuery env (allObjectsQuery (databaseOf connection)) token s of
                    (result, s1) \<Rightarrow>
                      (case (case result of
                               Some r \<Rightarrow>
                                 (case loadObjects (rows r) [] [] of
                                    (tbls, rts) \<Rightarrow>
                                      (case api_runQuery env
                                              (foreignKeysQuery (databaseOf connection)) token s1 of
                                         (fkResult, s2) \<Rightarrow>
                                           (tbls, rts,
                                            (case fkResult of
                                               Some fr \<Rightarrow> map toForeignKey (rows fr)
                                             | None \<Rightarrow> []),
                                            s2)))
                             | None \<Rightarrow> ([], [], [], s1)) of
                         (tbls, rts, fks, s3) \<Rightarrow>
                           (let entry = \<lparr>tables = tbls, routines = rts, foreignKeys = fks,
                                         timestamp = dateNow env (length (issued s3))\<rparr>
                            in (Some entry, s3\<lparr>cache := (cache s3)(key \<mapsto> entry)\<rparr>))))))"

definition getTables ::
  "Environment \<Rightarrow> MssqlConnection option \<Rightarrow> CancellationToken option \<Rightarrow> SchemaCacheState
     \<Rightarrow> TableMetadata list \<times> SchemaCacheState" where
  "getTables env connection token s =
     (case ensureCache env connection token s of
        (entry, s') \<Rightarrow>
          (case entry of
             Some e \<Rightarrow> (filter (\<lambda>t. t_type t = TABLE \<or> t_type t = VIEW) (map snd (tables e)), s')
           | None \<Rightarrow> ([], s')))"

definition getForeignKeys ::
  "Environment \<Rightarrow> MssqlConnection option \<Rightarrow> SchemaCacheState
     \<Rightarrow> ForeignKeyRelation list \<times> SchemaCacheState" where
  "getForeignKeys env connection s =
     (case ensureCache env connection None s of
        (entry, s') \<Rightarrow> (case entry of Some e \<Rightarrow> (foreignKeys e, s') | None \<Rightarrow> ([], s')))"

text \<open>\<^verbatim>\<open>options?.database ?? connection?.database\<close>\<close>

definition queryDatabase :: "MssqlConnection option \<Rightarrow> GetTableOptions option \<Rightarrow> string option" where
  "queryDatabase connection options =
     (case optionDatabase options of Some d \<Rightarrow> Some d | None \<Rightarrow> databaseOf connection)"

definition populateColumns ::
  "Environment \<Rightarrow> MssqlConnection option \<Rightarrow> TableMetadata \<Rightarrow> GetTableOptions option
     \<Rightarrow> SchemaCacheState \<Rightarrow> TableMetadata \<times> SchemaCacheState" where
  "populateColumns env connection table options s =
     (let query = columnsForObjectQuery (t_schema table) (t_name table)
                    (queryDatabase connection options)
      in case api_runQuery env query None s of
           (result, s') \<Rightarrow>
             (case result of
                None \<Rightarrow> (table, s')
              | Some r \<Rightarrow> (table\<lparr>t_columns := Some (map toColumnMetadata (rows r))\<rparr>, s')))"

definition populateDescription ::
  "Environment \<Rightarrow> MssqlConnection option \<Rightarrow> TableMetadata \<Rightarrow> GetTableOptions option
     \<Rightarrow> SchemaCacheState \<Rightarrow> TableMetadata \<times> SchemaCacheState" where
  "populateDescription env connection table options s =
     (let query = extendedPropertyDescriptionQuery (t_schema table) (t_name table)
                    (queryDatabase connection options)
      in case api_runScalar env query s of
           (description, s') \<Rightarrow>
             (if truthy description then (table\<lparr>t_description := Some description\<rparr>, s')
              else (table, s')))"

definition loadTableOnDemand ::
  "Environment \<Rightarrow> MssqlConnection option \<Rightarrow> string \<Rightarrow> string \<Rightarrow> GetTableOptions option
     \<Rightarrow> SchemaCacheState \<Rightarrow> TableMetadata option \<times> SchemaCacheState" where
  "loadTableOnDemand env connection sch name options s =
     (if connection = None then (None, s)
      else
        (let table = \<lparr>t_schema = sch, t_name = name, t_type = TABLE,
                      t_description = None, t_columns = None\<rparr>
         in case populateColumns env connection table options s of
              (table1, s1) \<Rightarrow>
                if t_columns table1 = None \<or> length (the (t_columns table1)) = 0 then (None, s1)
                else
                  (case populateDescription env connection table1 options s1 of
                     (table2, s2) \<Rightarrow> (Some table2, s2))))"

definition loadTableCrossDatabase ::
  "Environment \<Rightarrow> MssqlConnection \<Rightarrow> string \<Rightarrow> string \<Rightarrow> string
     \<Rightarrow> SchemaCacheState \<Rightarrow> TableMetadata option \<times> SchemaCacheState" where
  "loadTableCrossDatabase env connection db sch name s =
     (let clone = connection\<lparr>conn_database := Some db\<rparr>
      in loadTableOnDemand env (Some clone) sch name (Some \<lparr>opt_database = Some db\<rparr>) s)"

text \<open>
  The guard of \<^verbatim>\<open>getTable\<close>: both database names are there and not empty, and they
  differ when letter case is set aside.
\<close>

definition crossDatabase :: "MssqlConnection option \<Rightarrow> GetTableOptions option \<Rightarrow> bool" where
  "crossDatabase connection options \<longleftrightarrow>
     truthyString (optionDatabase options) \<and> truthyString (databaseOf connection)
     \<and> toLowerCase (the (optionDatabase options)) \<noteq> toLowerCase (the (databaseOf connection))"

text \<open>
  \<^verbatim>\<open>entry.tables.set(key, table)\<close>: \<^verbatim>\<open>entry\<close> is the object that \<^verbatim>\<open>ensureCache\<close>
  returned, which is the one the cache holds under the connection key.
\<close>

definition setTable :: "string \<Rightarrow> string \<Rightarrow> TableMetadata \<Rightarrow> SchemaCacheState \<Rightarrow> SchemaCacheState" where
  "setTable connectionKey key table s =
     (case cache s connectionKey of
        None \<Rightarrow> s
      | Some e \<Rightarrow>
          s\<lparr>cache := (cache s)(connectionKey \<mapsto> e\<lparr>tables := AList.update key table (tables e)\<rparr>)\<rparr>)"

text \<open>\<^verbatim>\<open>!table.description\<close>\<close>

definition noDescription :: "TableMetadata \<Rightarrow> bool" where
  "noDescription table = (case t_description table of None \<Rightarrow> True | Some d \<Rightarrow> \<not> truthy d)"

text \<open>The end of \<^verbatim>\<open>getTable\<close>, from \<^verbatim>\<open>if (!table.columns)\<close> on.\<close>

definition fillTable ::
  "Environment \<Rightarrow> MssqlConnection option \<Rightarrow> GetTableOptions option \<Rightarrow> string \<Rightarrow> string
     \<Rightarrow> TableMetadata \<Rightarrow> SchemaCacheState \<Rightarrow> TableMetadata option \<times> SchemaCacheState" where
  "fillTable env connection options connectionKey key table s =
     (case (if t_columns table = None then
              (case populateColumns env connection table options s of
                 (table1, s1) \<Rightarrow> (table1, setTable connectionKey key table1 s1))
            else (table, s)) of
        (table1, s1) \<Rightarrow>
          (case (if noDescription table1 then
                   (case populateDescription env connection table1 options s1 of
                      (table2, s2) \<Rightarrow> (table2, setTable connectionKey key table2 s2))
                 else (table1, s1)) of
             (table2, s2) \<Rightarrow> (Some table2, s2)))"

definition getTable ::
  "Environment \<Rightarrow> MssqlConnection option \<Rightarrow> string \<Rightarrow> string \<Rightarrow> CancellationToken option
     \<Rightarrow> GetTableOptions option \<Rightarrow> SchemaCacheState \<Rightarrow> TableMetadata option \<times> SchemaCacheState" where
  "getTable env connection sch name token options s =
     (if crossDatabase connection options then
        loadTableCrossDatabase env (the connection) (the (optionDatabase options)) sch name s
      else
        (case ensureCache env connection token s of
           (entry, s1) \<Rightarrow>
             (case entry of
                None \<Rightarrow> loadTableOnDemand env connection sch name options s1
              | Some e \<Rightarrow>
                  (let connectionKey = the (getConnectionKey connection);
                       key = toObjectKey sch name
                   in case map_of (tables e) key of
                        Some table \<Rightarrow> fillTable env connection options connectionKey key table s1
                      | None \<Rightarrow>
                          (case loadTableOnDemand env connection sch name options s1 of
                             (loaded, s2) \<Rightarrow>
                               (case loaded of
                                  None \<Rightarrow> (None, s2)
                                | Some table \<Rightarrow>
                                    fillTable env connection options connectionKey key table
                                      (setTable connectionKey key table s2)))))))"

text \<open>
  A loader that returns the same results for the same query, whenever it is asked.
\<close>

definition sameAnswers :: "Environment \<Rightarrow> bool" where
  "sameAnswers env \<longleftrightarrow> (\<forall>n m q token. runQuery env n q token = runQuery env m q token)"

section \<open>Facts about strings\<close>

lemma trimStart_subset: "set (trimStart s) \<subseteq> set s"
  unfolding trimStart_def by (auto dest: set_dropWhileD)

lemma trimEnd_subset: "set (trimEnd s) \<subseteq> set s"
proof -
  have "set (dropWhile isSpace (rev s)) \<subseteq> set (rev s)"
    by (auto dest: set_dropWhileD)
  then show ?thesis by (simp add: trimEnd_def)
qed

lemma trim_subset: "set (trim s) \<subseteq> set s"
  unfolding trim_def using trimEnd_subset trimStart_subset by blast

lemma trimEnd_last: "trimEnd s \<noteq> [] \<Longrightarrow> \<not> isSpace (last (trimEnd s))"
proof -
  assume ne: "trimEnd s \<noteq> []"
  then have d: "dropWhile isSpace (rev s) \<noteq> []" by (simp add: trimEnd_def)
  then have "\<not> isSpace (hd (dropWhile isSpace (rev s)))" by (rule hd_dropWhile)
  with d show ?thesis by (simp add: trimEnd_def last_rev)
qed

lemma trimEnd_hd: "s \<noteq> [] \<Longrightarrow> \<not> isSpace (hd s) \<Longrightarrow> hd (trimEnd s) = hd s \<and> trimEnd s \<noteq> []"
proof (induction s rule: rev_induct)
  case Nil
  then show ?case by simp
next
  case (snoc x xs)
  show ?case
  proof (cases "isSpace x")
    case False
    then show ?thesis by (simp add: trimEnd_def)
  next
    case True
    with snoc.prems have xs: "xs \<noteq> []" by (cases xs) auto
    with snoc.prems have "\<not> isSpace (hd xs)" by simp
    with snoc.IH xs have "hd (trimEnd xs) = hd xs \<and> trimEnd xs \<noteq> []" by simp
    moreover from True have "trimEnd (xs @ [x]) = trimEnd xs" by (simp add: trimEnd_def)
    ultimately show ?thesis using xs by simp
  qed
qed

lemma trim_clean_ends:
  assumes "trim s \<noteq> []"
  shows "\<not> isSpace (hd (trim s)) \<and> \<not> isSpace (last (trim s))"
proof -
  from assms have ts: "trimStart s \<noteq> []" by (auto simp: trim_def trimEnd_def)
  then have h: "\<not> isSpace (hd (trimStart s))"
    unfolding trimStart_def by (rule hd_dropWhile)
  from trimEnd_hd [OF ts h] h have "\<not> isSpace (hd (trim s))" by (simp add: trim_def)
  moreover from assms have "\<not> isSpace (last (trim s))"
    unfolding trim_def by (rule trimEnd_last)
  ultimately show ?thesis by simp
qed

lemma stripBrackets_free: "CHR ''['' \<notin> set (stripBrackets v) \<and> CHR '']'' \<notin> set (stripBrackets v)"
  by (simp add: stripBrackets_def)

lemma normalize_strip_spec:
  "normalizeIdentifierPart (Some (stripBrackets t)) = resolved_part_spec t"
proof -
  have f: "filter (\<lambda>c. c \<notin> {CHR ''['', CHR '']''}) t = stripBrackets t"
    by (simp add: stripBrackets_def)
  have e: "trim [] = []" by (simp add: trim_def trimEnd_def trimStart_def)
  show ?thesis
    unfolding resolved_part_spec_def f normalizeIdentifierPart_def
    by (cases "stripBrackets t = []") (simp_all add: Let_def e)
qed

lemma resolved_part_clean: "resolved_part_spec t = Some v \<Longrightarrow> clean_part v"
proof -
  assume a: "resolved_part_spec t = Some v"
  define w where "w = filter (\<lambda>c. c \<notin> {CHR ''['', CHR '']''}) t"
  from a have v: "v = trim w" and ne: "trim w \<noteq> []"
    by (auto simp: resolved_part_spec_def w_def Let_def split: if_splits)
  have "set (trim w) \<subseteq> set w" by (rule trim_subset)
  moreover have "CHR ''['' \<notin> set w \<and> CHR '']'' \<notin> set w" by (simp add: w_def)
  ultimately have "CHR ''['' \<notin> set v \<and> CHR '']'' \<notin> set v" using v by blast
  with trim_clean_ends [OF ne] ne v show ?thesis by (simp add: clean_part_def)
qed

lemma parse_by_tokens:
  "parseQualifiedIdentifier s =
     (let ts = tokenizeQualifiedIdentifier s; n = length ts in
      \<lparr>database = (if 3 \<le> n then resolved_part_spec (ts ! (n - 3)) else None),
       schema = (if 2 \<le> n then resolved_part_spec (ts ! (n - 2)) else None),
       object = (if 1 \<le> n then resolved_part_spec (ts ! (n - 1)) else None)\<rparr>)"
proof -
  define ts where "ts = tokenizeQualifiedIdentifier s"
  have none: "normalizeIdentifierPart None = None" by (simp add: normalizeIdentifierPart_def)
  show ?thesis
  proof (cases ts rule: rev_cases)
    case Nil
    then show ?thesis by (simp add: parseQualifiedIdentifier_def ts_def [symmetric])
  next
    case (snoc ts1 c)
    note s1 = snoc
    show ?thesis
    proof (cases ts1 rule: rev_cases)
      case Nil
      with s1 show ?thesis
        by (simp add: parseQualifiedIdentifier_def ts_def [symmetric] Let_def none
            normalize_strip_spec)
    next
      case (snoc ts2 b)
      note s2 = snoc
      show ?thesis
      proof (cases ts2 rule: rev_cases)
        case Nil
        with s1 s2 show ?thesis
          by (simp add: parseQualifiedIdentifier_def ts_def [symmetric] Let_def none
              normalize_strip_spec)
      next
        case (snoc ts3 a)
        have n3: "(ts3 @ [a, b, c]) ! (length ts3) = a"
          by (simp add: nth_append)
        have n2: "(ts3 @ [a, b, c]) ! Suc (length ts3) = b"
          by (simp add: nth_append)
        have n1: "(ts3 @ [a, b, c]) ! Suc (Suc (length ts3)) = c"
          by (simp add: nth_append)
        from s1 s2 snoc have t: "ts = ts3 @ [a, b, c]" by simp
        have l: "last (ts3 @ [a, b, c]) = c" "butlast (ts3 @ [a, b, c]) = ts3 @ [a, b]"
          "last (ts3 @ [a, b]) = b" "butlast (ts3 @ [a, b]) = ts3 @ [a]"
          by (simp_all add: butlast_append)
        show ?thesis
          unfolding parseQualifiedIdentifier_def ts_def [symmetric] t Let_def
          by (simp add: l n1 n2 n3 normalize_strip_spec)
      qed
    qed
  qed
qed


section \<open>Qualified identifiers: the tokens and the parts\<close>

lemma split_on_nonempty: "split_on c s \<noteq> []"
  by (induction s) (auto split: list.splits)

lemma split_on_append:
  "c \<notin> set a \<Longrightarrow> split_on c (a @ b) = (a @ hd (split_on c b)) # tl (split_on c b)"
proof (induction a)
  case Nil
  then show ?case using split_on_nonempty [of c b] by simp
next
  case (Cons x a)
  then show ?case by auto
qed



lemma parts_clean:
  assumes "object (parseQualifiedIdentifier s) = Some v
     \<or> schema (parseQualifiedIdentifier s) = Some v
     \<or> database (parseQualifiedIdentifier s) = Some v"
  shows "clean_part v"
proof -
  from assms obtain t where "resolved_part_spec t = Some v"
    unfolding parse_by_tokens [of s] Let_def by (auto split: if_splits)
  then show ?thesis by (rule resolved_part_clean)
qed

text \<open>
  Claim C3, as the code has it. \<^verbatim>\<open>parseQualifiedIdentifier\<close> has no escape for \<^verbatim>\<open>]]\<close>:
  \<^verbatim>\<open>stripBrackets\<close> removes every bracket character, so the input \<^verbatim>\<open>[a]]b]\<close> gives the
  object part \<^verbatim>\<open>ab\<close>, not \<^verbatim>\<open>a]b\<close>.
\<close>

theorem bracket_escape_counterexample:
  "object (parseQualifiedIdentifier ''[a]]b]'') = Some ''ab''
   \<and> object (parseQualifiedIdentifier ''[a]]b]'') \<noteq> Some ''a]b''"
  by code_simp

text \<open>
  Claim C3, amended: for every input, no part that \<^verbatim>\<open>parseQualifiedIdentifier\<close> returns
  contains a bracket character, a doubled closing bracket included, and the input
  \<^verbatim>\<open>[a]]b]\<close> has the one part \<^verbatim>\<open>ab\<close>, its object.
\<close>

theorem parseQualifiedIdentifier_no_brackets:
  "(\<forall>v. object (parseQualifiedIdentifier s) = Some v
        \<or> schema (parseQualifiedIdentifier s) = Some v
        \<or> database (parseQualifiedIdentifier s) = Some v
      \<longrightarrow> CHR ''['' \<notin> set v \<and> CHR '']'' \<notin> set v)
   \<and> parseQualifiedIdentifier ''[a]]b]'' = \<lparr>database = None, schema = None, object = Some ''ab''\<rparr>"
proof -
  have "parseQualifiedIdentifier ''[a]]b]'' = \<lparr>database = None, schema = None, object = Some ''ab''\<rparr>"
    by code_simp
  moreover have "\<And>v. object (parseQualifiedIdentifier s) = Some v
        \<or> schema (parseQualifiedIdentifier s) = Some v
        \<or> database (parseQualifiedIdentifier s) = Some v
      \<Longrightarrow> CHR ''['' \<notin> set v \<and> CHR '']'' \<notin> set v"
    using parts_clean [of s] by (simp add: clean_part_def)
  ultimately show ?thesis by blast
qed

theorem parseQualifiedIdentifier_no_brackets_witness:
  "schema (parseQualifiedIdentifier ''[dbo]]x].[t]'') = Some ''dbox''
   \<and> CHR ''['' \<notin> set ''dbox'' \<and> CHR '']'' \<notin> set ''dbox''"
proof -
  have e: "schema (parseQualifiedIdentifier ''[dbo]]x].[t]'') = Some ''dbox''"
    by code_simp
  with parseQualifiedIdentifier_no_brackets [of "''[dbo]]x].[t]''"]
  have "CHR ''['' \<notin> set ''dbox'' \<and> CHR '']'' \<notin> set ''dbox''"
    by blast
  with e show ?thesis by simp
qed



section \<open>The routine context\<close>

lemma plain_chars_not_word:
  "list_all (\<lambda>c. \<not> isWordChar c)
     [CHR '' '', CHR 0x09, CHR 0x0A, CHR 0x0B, CHR 0x0C, CHR 0x0D, CHR 0xA0, CHR ''['', CHR '']'', CHR ''.'']"
  by code_simp

lemma wordChar_plain:
  assumes "isWordChar c"
  shows "\<not> isSpace c \<and> c \<noteq> CHR ''['' \<and> c \<noteq> CHR '']'' \<and> c \<noteq> CHR ''.''"
proof -
  from assms plain_chars_not_word
  have "c \<notin> set [CHR '' '', CHR 0x09, CHR 0x0A, CHR 0x0B, CHR 0x0C, CHR 0x0D, CHR 0xA0, CHR ''['', CHR '']'', CHR ''.'']"
    unfolding list_all_iff by blast
  then show ?thesis by (simp add: isSpace_def)
qed

lemma spaces_lower:
  "list_all (\<lambda>c. toLowerChar c = c \<and> c \<noteq> CHR ''u'')
     [CHR '' '', CHR 0x09, CHR 0x0A, CHR 0x0B, CHR 0x0C, CHR 0x0D, CHR 0xA0]"
  by code_simp

lemma space_lower: "isSpace c \<Longrightarrow> toLowerChar c = c \<and> c \<noteq> CHR ''u''"
  using spaces_lower unfolding list_all_iff isSpace_def by blast

lemma trim_id: "s \<noteq> [] \<Longrightarrow> \<not> isSpace (hd s) \<Longrightarrow> \<not> isSpace (last s) \<Longrightarrow> trim s = s"
proof -
  assume a: "s \<noteq> []" "\<not> isSpace (hd s)" "\<not> isSpace (last s)"
  then have "trimStart s = s" by (cases s) (simp_all add: trimStart_def)
  moreover have "dropWhile isSpace (rev s) = rev s"
  proof (cases "rev s")
    case Nil
    with a show ?thesis by simp
  next
    case (Cons y ys)
    then have "hd (rev s) = y" by simp
    with a have "\<not> isSpace y" by (simp add: hd_rev)
    with Cons show ?thesis by simp
  qed
  ultimately show ?thesis by (simp add: trim_def trimEnd_def)
qed

lemma normalizeDots_id: "\<forall>c \<in> set s. \<not> isSpace c \<Longrightarrow> normalizeDots s = s"
proof (induction s)
  case Nil
  then show ?case by simp
next
  case (Cons c cs)
  then have "dropWhile isSpace cs = cs" by (cases cs) simp_all
  with Cons show ?case by simp
qed

lemma split_on_single: "c \<notin> set s \<Longrightarrow> split_on c s = [s]"
  by (induction s) auto


lemma popSchema_rev:
  "popSchema (rev xs) =
     (let typed = filter (\<lambda>p. p \<noteq> []) xs in if typed = [] then None else Some (last typed))"
  by (induction xs rule: rev_induct) (simp_all add: Let_def)

lemma parseRoutineToken_segments:
  "parseRoutineToken token =
     (let segs = split_on (CHR ''.'') (normalizeDots (stripBrackets (trim token)));
          typed = filter (\<lambda>p. p \<noteq> []) (butlast segs)
      in (if typed = [] then None else Some (last typed), last segs))"
proof (cases "trim token = []")
  case True
  then show ?thesis by (simp add: parseRoutineToken_def stripBrackets_def)
next
  case False
  then show ?thesis by (simp add: parseRoutineToken_def Let_def popSchema_rev)
qed

lemma analyze_exec:
  "searchFrom execAt False (take character lineText) = Some token \<Longrightarrow>
   analyzeCompletionContext lineText character = buildRoutineContext token CatProcedure"
  by (simp add: analyzeCompletionContext_def detectRoutineContext_def)

lemma split_on_run: "c \<notin> set b \<Longrightarrow> split_on c (replicate n c @ b) = replicate n [] @ [b]"
  by (induction n) (simp_all add: split_on_single)

lemma split_on_dots:
  assumes "c \<notin> set a" and "c \<notin> set b"
  shows "split_on c (a @ replicate (Suc n) c @ b) = a # replicate n [] @ [b]"
proof -
  have "split_on c (replicate (Suc n) c @ b) = [] # replicate n [] @ [b]"
    using split_on_run [OF assms(2), of "Suc n"] by simp
  with split_on_append [OF assms(1), of "replicate (Suc n) c @ b"] show ?thesis by simp
qed

lemma popSchema_skips: "own \<noteq> [] \<Longrightarrow> popSchema (replicate n [] @ [own]) = Some own"
  by (induction n) simp_all

lemma parseRoutineToken_skips:
  assumes o: "own \<noteq> []" "list_all isWordChar own" and p: "list_all isWordChar pre"
  shows "parseRoutineToken (own @ replicate (Suc n) (CHR ''.'') @ pre) = (Some own, pre)"
proof -
  let ?t = "own @ replicate (Suc n) (CHR ''.'') @ pre"
  have d: "\<not> isSpace (CHR ''.'')" by (simp add: isSpace_def)
  from o p have plain: "\<forall>c \<in> set ?t. \<not> isSpace c \<and> c \<noteq> CHR ''['' \<and> c \<noteq> CHR '']''"
    using wordChar_plain d by (auto simp: list_all_iff)
  from o have h: "\<not> isSpace (hd ?t)" using plain by (cases own) auto
  have l: "\<not> isSpace (last ?t)"
  proof (cases pre rule: rev_cases)
    case Nil
    then show ?thesis using d by simp
  next
    case (snoc ys y)
    with plain show ?thesis by simp
  qed
  have t: "trim ?t = ?t" using trim_id [OF _ h l] o(1) by simp
  have s: "stripBrackets ?t = ?t" using plain by (simp add: stripBrackets_def filter_id_conv)
  have n: "normalizeDots ?t = ?t" using plain by (intro normalizeDots_id) blast
  from o p have "CHR ''.'' \<notin> set own" "CHR ''.'' \<notin> set pre"
    using wordChar_plain by (auto simp: list_all_iff)
  then have sp: "split_on (CHR ''.'') ?t = own # replicate n [] @ [pre]" by (rule split_on_dots)
  have b: "butlast (own # replicate n [] @ [pre]) = own # replicate n []"
    by (simp add: butlast_append)
  have r: "rev (own # replicate n []) = replicate n [] @ [own]" by simp
  have ne: "?t \<noteq> []" using o(1) by simp
  show ?thesis
    unfolding parseRoutineToken_def t s n sp Let_def b r popSchema_skips [OF o(1)]
    using ne by simp
qed

lemma ws1_run:
  "ws \<noteq> [] \<Longrightarrow> list_all isSpace ws \<Longrightarrow> r \<noteq> [] \<Longrightarrow> \<not> isSpace (hd r) \<Longrightarrow> ws1 (ws @ r) = Some r"
proof -
  assume a: "ws \<noteq> []" "list_all isSpace ws" "r \<noteq> []" "\<not> isSpace (hd r)"
  then obtain w ws' where w: "ws = w # ws'" by (cases ws) auto
  with a have "dropWhile isSpace (ws' @ r) = r"
    by (cases r) (simp_all add: dropWhile_append list_all_iff)
  with w a show ?thesis by (simp add: ws1_def)
qed

lemma lower_length: "toLowerCase kw = k \<Longrightarrow> length kw = length k"
  by (auto simp: toLowerCase_def)

lemma execAt_keyword:
  assumes kw: "toLowerCase kw \<in> set ROUTINE_KEYWORDS"
    and ws: "ws \<noteq> []" "list_all isSpace ws"
    and r: "r \<noteq> []" "\<not> isSpace (hd r)" "list_all isRoutineNameChar r"
  shows "execAt (kw @ ws @ r) = Some r"
proof -
  from ws obtain w ws' where w: "ws = w # ws'" "isSpace w" by (cases ws) auto
  have tail: "Option.bind (ws1 (ws @ r)) nameTail = Some r"
    using ws1_run [OF ws r(1,2)] r(3) by (simp add: nameTail_def)
  have lw: "toLowerChar w = w" and wne: "w \<noteq> CHR ''u''" using w space_lower by blast+
  from kw consider "toLowerCase kw = ''exec''" | "toLowerCase kw = ''execute''" | "toLowerCase kw = ''call''"
    by (auto simp: ROUTINE_KEYWORDS_def)
  then show ?thesis
  proof cases
    case 1
    from lower_length [OF 1] have len: "length kw = 4" by simp
    have no: "lit ''execute'' (kw @ ws @ r) = None"
      using 1 len w lw wne by (simp add: lit_def toLowerCase_def)
    have yes: "lit ''exec'' (kw @ ws @ r) = Some (ws @ r)"
      using 1 len by (simp add: lit_def toLowerCase_def)
    show ?thesis using no yes tail by (simp add: execAt_def)
  next
    case 2
    from lower_length [OF 2] have len: "length kw = 7" by simp
    have yes: "lit ''execute'' (kw @ ws @ r) = Some (ws @ r)"
      using 2 len by (simp add: lit_def toLowerCase_def)
    show ?thesis using yes tail by (simp add: execAt_def)
  next
    case 3
    from lower_length [OF 3] have len: "length kw = 4" by simp
    have no: "lit ''execute'' (kw @ ws @ r) = None"
      using 3 len by (simp add: lit_def toLowerCase_def)
    have no2: "lit ''exec'' (kw @ ws @ r) = None"
      using 3 len by (simp add: lit_def toLowerCase_def)
    have yes: "lit ''call'' (kw @ ws @ r) = Some (ws @ r)"
      using 3 len by (simp add: lit_def toLowerCase_def)
    show ?thesis using no no2 yes tail by (simp add: execAt_def)
  qed
qed

lemma exec_family:
  assumes a: "toLowerCase kw \<in> set ROUTINE_KEYWORDS \<and> ws \<noteq> [] \<and> list_all isSpace ws
        \<and> own \<noteq> [] \<and> list_all isWordChar own \<and> list_all isWordChar pre"
  shows "analyzeCompletionContext (kw @ ws @ own @ replicate (Suc n) (CHR ''.'') @ pre)
            (length (kw @ ws @ own @ replicate (Suc n) (CHR ''.'') @ pre)) =
          \<lparr>type = Routine, prefix = pre, owner = Some own, alias' = None,
           routineCategory = Some CatProcedure\<rparr>"
proof -
  let ?tok = "own @ replicate (Suc n) (CHR ''.'') @ pre"
  let ?line = "kw @ ws @ ?tok"
  from a have name: "list_all isRoutineNameChar ?tok"
    by (auto simp: list_all_iff isRoutineNameChar_def isTokenChar_def)
  from a have hd: "\<not> isSpace (hd ?tok)"
    using wordChar_plain by (cases own) auto
  from a have ne: "?tok \<noteq> []" by simp
  from a have e: "execAt ?line = Some ?tok"
    using execAt_keyword [of kw ws ?tok] name hd ne by blast
  from a have "kw \<noteq> []" by (auto simp: ROUTINE_KEYWORDS_def toLowerCase_def)
  then obtain c cs where l: "?line = c # cs" by (cases kw) auto
  have "searchFrom execAt False ?line = Some ?tok"
    unfolding l using e [unfolded l] by simp
  then have m: "searchFrom execAt False (take (length ?line) ?line) = Some ?tok" by simp
  from a have p: "parseRoutineToken ?tok = (Some own, pre)"
    by (intro parseRoutineToken_skips) simp_all
  show ?thesis
    unfolding analyze_exec [OF m] buildRoutineContext_def p by simp
qed

text \<open>
  Claim C7, as the code has it. With the cursor at the end of \<^verbatim>\<open>EXEC db..sp_\<close> the
  first expression of \<^verbatim>\<open>detectRoutineContext\<close> matches and captures \<^verbatim>\<open>db..sp_\<close>; the
  context is a routine of category procedure with the prefix \<^verbatim>\<open>sp_\<close>. The dotted
  segments typed so far are \<^verbatim>\<open>db\<close>, the empty segment and \<^verbatim>\<open>sp_\<close>, so the
  rightmost-but-one segment is the empty one; the owner returned is \<^verbatim>\<open>db\<close>, the
  segment before it.
\<close>

theorem exec_owner_counterexample:
  "(let r = analyzeCompletionContext ''EXEC db..sp_'' 12 in
      searchFrom execAt False (take 12 ''EXEC db..sp_'') = Some ''db..sp_''
      \<and> type r = Routine \<and> routineCategory r = Some CatProcedure \<and> prefix r = ''sp_''
      \<and> split_on (CHR ''.'') ''db..sp_'' = [''db'', [], ''sp_'']
      \<and> owner_spec ''db..sp_'' = Some []
      \<and> owner r = Some ''db''
      \<and> owner r \<noteq> owner_spec ''db..sp_'')"
  by code_simp

text \<open>
  Claim C7, amended. The text before the cursor is in an EXEC context when the first
  expression of \<^verbatim>\<open>detectRoutineContext\<close> matches it; \<open>token\<close> is then the name captured
  after the keyword. In that case the context is a routine of category procedure;
  with the brackets of the token removed, the whitespace around its dots dropped and
  the rest split at every dot, the prefix is the last segment, which may be empty, and
  the owner is the last segment before it that is not empty, absent when there is
  none. For every spelling of \<^verbatim>\<open>EXEC\<close>, \<^verbatim>\<open>EXECUTE\<close> or \<^verbatim>\<open>CALL\<close> followed by
  whitespace, an owner of word characters, one dot or more and a partial name of word
  characters, the owner and the prefix are these two. With the cursor at the end,
  \<^verbatim>\<open>EXEC dbo.sp_\<close> gives owner \<^verbatim>\<open>dbo\<close> and prefix \<^verbatim>\<open>sp_\<close>, \<^verbatim>\<open>EXEC db..sp_\<close> gives owner
  \<^verbatim>\<open>db\<close>, \<^verbatim>\<open>EXEC [x.y].z\<close> gives owner \<^verbatim>\<open>y\<close> and prefix \<^verbatim>\<open>z\<close>, the dot between the
  brackets separating segments like any other, and \<^verbatim>\<open>EXEC sp_\<close> gives no owner.
\<close>

theorem exec_routine_context:
  "(searchFrom execAt False (take character lineText) = Some token \<longrightarrow>
      (let r = analyzeCompletionContext lineText character;
           segs = split_on (CHR ''.'') (normalizeDots (stripBrackets (trim token)));
           typed = filter (\<lambda>p. p \<noteq> []) (butlast segs)
       in type r = Routine \<and> routineCategory r = Some CatProcedure \<and> prefix r = last segs \<and>
          owner r = (if typed = [] then None else Some (last typed))))
   \<and> (toLowerCase kw \<in> set ROUTINE_KEYWORDS \<and> ws \<noteq> [] \<and> list_all isSpace ws
        \<and> own \<noteq> [] \<and> list_all isWordChar own \<and> list_all isWordChar pre \<longrightarrow>
        analyzeCompletionContext (kw @ ws @ own @ replicate (Suc n) (CHR ''.'') @ pre)
            (length (kw @ ws @ own @ replicate (Suc n) (CHR ''.'') @ pre)) =
          \<lparr>type = Routine, prefix = pre, owner = Some own, alias' = None,
           routineCategory = Some CatProcedure\<rparr>)
   \<and> analyzeCompletionContext ''EXEC dbo.sp_'' 12 =
          \<lparr>type = Routine, prefix = ''sp_'', owner = Some ''dbo'', alias' = None,
           routineCategory = Some CatProcedure\<rparr>
   \<and> analyzeCompletionContext ''EXEC db..sp_'' 12 =
          \<lparr>type = Routine, prefix = ''sp_'', owner = Some ''db'', alias' = None,
           routineCategory = Some CatProcedure\<rparr>
   \<and> analyzeCompletionContext ''EXEC [x.y].z'' 12 =
          \<lparr>type = Routine, prefix = ''z'', owner = Some ''y'', alias' = None,
           routineCategory = Some CatProcedure\<rparr>
   \<and> analyzeCompletionContext ''EXEC sp_'' 8 =
          \<lparr>type = Routine, prefix = ''sp_'', owner = None, alias' = None,
           routineCategory = Some CatProcedure\<rparr>"
proof (intro conjI impI)
  assume m: "searchFrom execAt False (take character lineText) = Some token"
  show "let r = analyzeCompletionContext lineText character;
           segs = split_on (CHR ''.'') (normalizeDots (stripBrackets (trim token)));
           typed = filter (\<lambda>p. p \<noteq> []) (butlast segs)
       in type r = Routine \<and> routineCategory r = Some CatProcedure \<and> prefix r = last segs \<and>
          owner r = (if typed = [] then None else Some (last typed))"
    unfolding analyze_exec [OF m] buildRoutineContext_def parseRoutineToken_segments [of token]
    by (simp add: Let_def)
next
  assume "toLowerCase kw \<in> set ROUTINE_KEYWORDS \<and> ws \<noteq> [] \<and> list_all isSpace ws
        \<and> own \<noteq> [] \<and> list_all isWordChar own \<and> list_all isWordChar pre"
  then show "analyzeCompletionContext (kw @ ws @ own @ replicate (Suc n) (CHR ''.'') @ pre)
            (length (kw @ ws @ own @ replicate (Suc n) (CHR ''.'') @ pre)) =
          \<lparr>type = Routine, prefix = pre, owner = Some own, alias' = None,
           routineCategory = Some CatProcedure\<rparr>"
    by (rule exec_family)
next
  show "analyzeCompletionContext ''EXEC dbo.sp_'' 12 =
          \<lparr>type = Routine, prefix = ''sp_'', owner = Some ''dbo'', alias' = None,
           routineCategory = Some CatProcedure\<rparr>"
    by code_simp
next
  show "analyzeCompletionContext ''EXEC db..sp_'' 12 =
          \<lparr>type = Routine, prefix = ''sp_'', owner = Some ''db'', alias' = None,
           routineCategory = Some CatProcedure\<rparr>"
    by code_simp
next
  show "analyzeCompletionContext ''EXEC [x.y].z'' 12 =
          \<lparr>type = Routine, prefix = ''z'', owner = Some ''y'', alias' = None,
           routineCategory = Some CatProcedure\<rparr>"
    by code_simp
next
  show "analyzeCompletionContext ''EXEC sp_'' 8 =
          \<lparr>type = Routine, prefix = ''sp_'', owner = None, alias' = None,
           routineCategory = Some CatProcedure\<rparr>"
    by code_simp
qed

theorem exec_routine_context_witness:
  "analyzeCompletionContext ''Call dbo.usp'' 12 =
      \<lparr>type = Routine, prefix = ''usp'', owner = Some ''dbo'', alias' = None,
       routineCategory = Some CatProcedure\<rparr>
   \<and> analyzeCompletionContext ''execute  master...sp'' 20 =
      \<lparr>type = Routine, prefix = ''sp'', owner = Some ''master'', alias' = None,
       routineCategory = Some CatProcedure\<rparr>
   \<and> searchFrom execAt False (take 30 ''SELECT 1; EXEC [db]. dbo . sp_'') = Some ''[db]. dbo . sp_''
   \<and> owner (analyzeCompletionContext ''SELECT 1; EXEC [db]. dbo . sp_'' 30) = Some ''dbo''
   \<and> prefix (analyzeCompletionContext ''SELECT 1; EXEC [db]. dbo . sp_'' 30) = ''sp_''"
proof -
  have m: "searchFrom execAt False (take 30 ''SELECT 1; EXEC [db]. dbo . sp_'') = Some ''[db]. dbo . sp_''"
    by code_simp
  have segs: "split_on (CHR ''.'') (normalizeDots (stripBrackets (trim ''[db]. dbo . sp_''))) = [''db'', ''dbo'', ''sp_'']"
    by code_simp
  have a: "searchFrom execAt False (take 30 ''SELECT 1; EXEC [db]. dbo . sp_'') = Some ''[db]. dbo . sp_'' \<longrightarrow>
      (let r = analyzeCompletionContext ''SELECT 1; EXEC [db]. dbo . sp_'' 30;
           segs = split_on (CHR ''.'') (normalizeDots (stripBrackets (trim ''[db]. dbo . sp_'')));
           typed = filter (\<lambda>p. p \<noteq> []) (butlast segs)
       in type r = Routine \<and> routineCategory r = Some CatProcedure \<and> prefix r = last segs \<and>
          owner r = (if typed = [] then None else Some (last typed)))"
    by (rule exec_routine_context [THEN conjunct1])
  from a m have s: "owner (analyzeCompletionContext ''SELECT 1; EXEC [db]. dbo . sp_'' 30) = Some ''dbo''
     \<and> prefix (analyzeCompletionContext ''SELECT 1; EXEC [db]. dbo . sp_'' 30) = ''sp_''"
    unfolding segs Let_def by simp
  have h: "toLowerCase ''Call'' \<in> set ROUTINE_KEYWORDS \<and> '' '' \<noteq> [] \<and> list_all isSpace '' ''
        \<and> ''dbo'' \<noteq> [] \<and> list_all isWordChar ''dbo'' \<and> list_all isWordChar ''usp''"
    by code_simp
  have eq: "''Call'' @ '' '' @ ''dbo'' @ replicate (Suc 0) (CHR ''.'') @ ''usp'' = ''Call dbo.usp''"
    by simp
  have len: "length ''Call dbo.usp'' = 12" by simp
  have "toLowerCase ''Call'' \<in> set ROUTINE_KEYWORDS \<and> '' '' \<noteq> [] \<and> list_all isSpace '' ''
        \<and> ''dbo'' \<noteq> [] \<and> list_all isWordChar ''dbo'' \<and> list_all isWordChar ''usp'' \<longrightarrow>
        analyzeCompletionContext (''Call'' @ '' '' @ ''dbo'' @ replicate (Suc 0) (CHR ''.'') @ ''usp'')
            (length (''Call'' @ '' '' @ ''dbo'' @ replicate (Suc 0) (CHR ''.'') @ ''usp'')) =
          \<lparr>type = Routine, prefix = ''usp'', owner = Some ''dbo'', alias' = None,
           routineCategory = Some CatProcedure\<rparr>"
    by (rule exec_routine_context [THEN conjunct2, THEN conjunct1])
  from this h have "analyzeCompletionContext (''Call'' @ '' '' @ ''dbo'' @ replicate (Suc 0) (CHR ''.'') @ ''usp'')
            (length (''Call'' @ '' '' @ ''dbo'' @ replicate (Suc 0) (CHR ''.'') @ ''usp'')) =
          \<lparr>type = Routine, prefix = ''usp'', owner = Some ''dbo'', alias' = None,
           routineCategory = Some CatProcedure\<rparr>"
    by (rule mp)
  then have c1: "analyzeCompletionContext ''Call dbo.usp'' 12 =
      \<lparr>type = Routine, prefix = ''usp'', owner = Some ''dbo'', alias' = None,
       routineCategory = Some CatProcedure\<rparr>"
    unfolding eq len .
  have h2: "toLowerCase ''execute'' \<in> set ROUTINE_KEYWORDS \<and> ''  '' \<noteq> [] \<and> list_all isSpace ''  ''
        \<and> ''master'' \<noteq> [] \<and> list_all isWordChar ''master'' \<and> list_all isWordChar ''sp''"
    by code_simp
  have eq2: "''execute'' @ ''  '' @ ''master'' @ replicate (Suc (Suc (Suc 0))) (CHR ''.'') @ ''sp''
      = ''execute  master...sp''"
    by simp
  have len2: "length ''execute  master...sp'' = 20" by simp
  have "toLowerCase ''execute'' \<in> set ROUTINE_KEYWORDS \<and> ''  '' \<noteq> [] \<and> list_all isSpace ''  ''
        \<and> ''master'' \<noteq> [] \<and> list_all isWordChar ''master'' \<and> list_all isWordChar ''sp'' \<longrightarrow>
        analyzeCompletionContext
            (''execute'' @ ''  '' @ ''master'' @ replicate (Suc (Suc (Suc 0))) (CHR ''.'') @ ''sp'')
            (length (''execute'' @ ''  '' @ ''master'' @ replicate (Suc (Suc (Suc 0))) (CHR ''.'') @ ''sp'')) =
          \<lparr>type = Routine, prefix = ''sp'', owner = Some ''master'', alias' = None,
           routineCategory = Some CatProcedure\<rparr>"
    by (rule exec_routine_context [THEN conjunct2, THEN conjunct1])
  from this h2 have "analyzeCompletionContext
            (''execute'' @ ''  '' @ ''master'' @ replicate (Suc (Suc (Suc 0))) (CHR ''.'') @ ''sp'')
            (length (''execute'' @ ''  '' @ ''master'' @ replicate (Suc (Suc (Suc 0))) (CHR ''.'') @ ''sp'')) =
          \<lparr>type = Routine, prefix = ''sp'', owner = Some ''master'', alias' = None,
           routineCategory = Some CatProcedure\<rparr>"
    by (rule mp)
  then have c2: "analyzeCompletionContext ''execute  master...sp'' 20 =
      \<lparr>type = Routine, prefix = ''sp'', owner = Some ''master'', alias' = None,
       routineCategory = Some CatProcedure\<rparr>"
    unfolding eq2 len2 .
  from c1 c2 m s show ?thesis by simp
qed


section \<open>The wildcard context\<close>


























section \<open>Data types and columns\<close>

lemma formatDataType_cases:
  "formatDataType row =
     (let base = String (nullish (get row ''data_type'') (JStr []));
          p = toNumber (get row ''precision'');
          s = toNumber (get row ''scale'');
          m = toNumber (get row ''max_length'')
      in case (p, s) of
           (Some pv, Some sv) \<Rightarrow>
             if 0 < pv then base @ ''('' @ showInt pv @ '', '' @ showInt sv @ '')''
             else (case m of
                     Some mv \<Rightarrow>
                       if 0 < mv \<and> base \<notin> set [''ntext'', ''text'', ''image'']
                       then base @ ''('' @ showInt mv @ '')'' else base
                   | None \<Rightarrow> base)
         | _ \<Rightarrow>
             (case m of
                Some mv \<Rightarrow>
                  if 0 < mv \<and> base \<notin> set [''ntext'', ''text'', ''image'']
                  then base @ ''('' @ showInt mv @ '')'' else base
              | None \<Rightarrow> base))"
  unfolding formatDataType_def Let_def
  by (auto split: option.splits)

text \<open>
  Claim C2, as the code has it. \<^verbatim>\<open>formatDataType\<close> writes precision and scale when
  both are known and the precision is positive, whatever the scale: an \<^verbatim>\<open>int\<close> column
  (precision 10, scale 0, length 4) is \<^verbatim>\<open>int(10, 0)\<close>, where the rule of the claim, which
  asks for a positive scale, gives \<^verbatim>\<open>int(4)\<close>. And the branch for the length -1 stands
  under the test \<^verbatim>\<open>maxLength > 0\<close>, so an \<^verbatim>\<open>nvarchar\<close> column of length -1 is
  \<^verbatim>\<open>nvarchar\<close>, not \<^verbatim>\<open>nvarchar(max)\<close>.
\<close>

theorem formatDataType_counterexample:
  "formatDataType [''data_type'' \<mapsto> JStr ''int'', ''precision'' \<mapsto> JStr ''10'',
                   ''scale'' \<mapsto> JStr ''0'', ''max_length'' \<mapsto> JStr ''4''] = ''int(10, 0)''
   \<and> formatDataType_spec ''int'' (Some 10) (Some 0) (Some 4) = ''int(4)''
   \<and> formatDataType [''data_type'' \<mapsto> JStr ''nvarchar'', ''max_length'' \<mapsto> JStr ''-1''] = ''nvarchar''
   \<and> formatDataType_spec ''nvarchar'' None None (Some (- 1)) = ''nvarchar(max)''"
  by code_simp

text \<open>
  Claim C2, amended. For every row, with the base type, precision, scale and length
  read from it: when precision and scale are known and the precision is positive, the
  data type is \<^verbatim>\<open>BASE(precision, scale)\<close>; otherwise, when the length is known and
  positive and the base type is none of \<^verbatim>\<open>ntext\<close>, \<^verbatim>\<open>text\<close>, \<^verbatim>\<open>image\<close>, it is
  \<^verbatim>\<open>BASE(length)\<close>; otherwise, when the length is unknown or zero or the base type is
  one of these three, it is the bare base type. Precision 18 and scale 2 on \<^verbatim>\<open>decimal\<close>
  give \<^verbatim>\<open>decimal(18, 2)\<close>, and \<^verbatim>\<open>text\<close> with precision 0 stays \<^verbatim>\<open>text\<close>. Nothing is
  said of a negative length.
\<close>

theorem formatDataType_rule:
  "(let base = String (nullish (get row ''data_type'') (JStr []));
        p = toNumber (get row ''precision'');
        s = toNumber (get row ''scale'');
        m = toNumber (get row ''max_length'');
        legacy = (base \<in> set [''ntext'', ''text'', ''image''])
    in (\<forall>pv sv. p = Some pv \<and> s = Some sv \<and> 0 < pv \<longrightarrow>
          formatDataType row = base @ ''('' @ showInt pv @ '', '' @ showInt sv @ '')'')
       \<and> (\<not> (\<exists>pv sv. p = Some pv \<and> s = Some sv \<and> 0 < pv) \<longrightarrow>
            (\<forall>mv. m = Some mv \<and> 0 < mv \<and> \<not> legacy \<longrightarrow>
               formatDataType row = base @ ''('' @ showInt mv @ '')'')
            \<and> (m = None \<or> m = Some 0 \<or> legacy \<longrightarrow> formatDataType row = base)))
   \<and> formatDataType [''data_type'' \<mapsto> JStr ''decimal'', ''precision'' \<mapsto> JStr ''18'',
                     ''scale'' \<mapsto> JStr ''2'', ''max_length'' \<mapsto> JStr ''9''] = ''decimal(18, 2)''
   \<and> formatDataType [''data_type'' \<mapsto> JStr ''text'', ''precision'' \<mapsto> JStr ''0'',
                     ''scale'' \<mapsto> JStr ''0'', ''max_length'' \<mapsto> JStr ''16''] = ''text''"
proof -
  have ex1: "formatDataType [''data_type'' \<mapsto> JStr ''decimal'', ''precision'' \<mapsto> JStr ''18'',
                     ''scale'' \<mapsto> JStr ''2'', ''max_length'' \<mapsto> JStr ''9''] = ''decimal(18, 2)''"
    by code_simp
  have ex2: "formatDataType [''data_type'' \<mapsto> JStr ''text'', ''precision'' \<mapsto> JStr ''0'',
                     ''scale'' \<mapsto> JStr ''0'', ''max_length'' \<mapsto> JStr ''16''] = ''text''"
    by code_simp
  have gen: "let base = String (nullish (get row ''data_type'') (JStr []));
        p = toNumber (get row ''precision'');
        s = toNumber (get row ''scale'');
        m = toNumber (get row ''max_length'');
        legacy = (base \<in> set [''ntext'', ''text'', ''image''])
    in (\<forall>pv sv. p = Some pv \<and> s = Some sv \<and> 0 < pv \<longrightarrow>
          formatDataType row = base @ ''('' @ showInt pv @ '', '' @ showInt sv @ '')'')
       \<and> (\<not> (\<exists>pv sv. p = Some pv \<and> s = Some sv \<and> 0 < pv) \<longrightarrow>
            (\<forall>mv. m = Some mv \<and> 0 < mv \<and> \<not> legacy \<longrightarrow>
               formatDataType row = base @ ''('' @ showInt mv @ '')'')
            \<and> (m = None \<or> m = Some 0 \<or> legacy \<longrightarrow> formatDataType row = base))"
    unfolding formatDataType_cases [of row] Let_def
    by (auto split: option.splits)
  from gen ex1 ex2 show ?thesis by blast
qed

theorem formatDataType_rule_witness:
  "formatDataType [''data_type'' \<mapsto> JStr ''int'', ''precision'' \<mapsto> JStr ''10'',
                   ''scale'' \<mapsto> JStr ''0'', ''max_length'' \<mapsto> JStr ''4''] = ''int(10, 0)''
   \<and> formatDataType [''data_type'' \<mapsto> JStr ''varchar'', ''precision'' \<mapsto> JStr ''0'',
                     ''scale'' \<mapsto> JStr ''0'', ''max_length'' \<mapsto> JStr ''50''] = ''varchar(50)''
   \<and> formatDataType [''data_type'' \<mapsto> JStr ''image'', ''max_length'' \<mapsto> JStr ''16''] = ''image''"
proof -
  let ?r1 = "[''data_type'' \<mapsto> JStr ''int'', ''precision'' \<mapsto> JStr ''10'',
              ''scale'' \<mapsto> JStr ''0'', ''max_length'' \<mapsto> JStr ''4'']"
  let ?r2 = "[''data_type'' \<mapsto> JStr ''varchar'', ''precision'' \<mapsto> JStr ''0'',
              ''scale'' \<mapsto> JStr ''0'', ''max_length'' \<mapsto> JStr ''50'']"
  let ?r3 = "[''data_type'' \<mapsto> JStr ''image'', ''max_length'' \<mapsto> JStr ''16'']"
  have v1: "String (nullish (get ?r1 ''data_type'') (JStr [])) = ''int''"
    "toNumber (get ?r1 ''precision'') = Some 10" "toNumber (get ?r1 ''scale'') = Some 0"
    "showInt 10 = ''10''" "showInt 0 = ''0''"
    by code_simp+
  have v2: "String (nullish (get ?r2 ''data_type'') (JStr [])) = ''varchar''"
    "toNumber (get ?r2 ''precision'') = Some 0" "toNumber (get ?r2 ''scale'') = Some 0"
    "toNumber (get ?r2 ''max_length'') = Some 50" "showInt 50 = ''50''"
    by code_simp+
  have v3: "String (nullish (get ?r3 ''data_type'') (JStr [])) = ''image''"
    "toNumber (get ?r3 ''precision'') = None" "toNumber (get ?r3 ''scale'') = None"
    "toNumber (get ?r3 ''max_length'') = Some 16"
    by code_simp+
  from formatDataType_rule [of ?r1] have "formatDataType ?r1 = ''int(10, 0)''"
    by (simp add: Let_def v1)
  moreover from formatDataType_rule [of ?r2] have "formatDataType ?r2 = ''varchar(50)''"
    by (simp add: Let_def v2)
  moreover from formatDataType_rule [of ?r3] have "formatDataType ?r3 = ''image''"
    by (simp add: Let_def v3)
  ultimately show ?thesis by simp
qed

lemma absent_field: "row k = None \<Longrightarrow> toBoolean (get row k) = False \<and> \<not> truthy (get row k)"
  by (simp add: get_def toBoolean_def)

lemma unselected_fields:
  "CHR ''i'' # CHR ''s'' # CHR ''_'' # CHR ''i'' # x \<notin> set columnsForObjectQuery_select"
  "''is_computed'' \<notin> set columnsForObjectQuery_select"
  "''is_rowguidcol'' \<notin> set columnsForObjectQuery_select"
  "''default_definition'' \<notin> set columnsForObjectQuery_select"
  by (simp_all add: columnsForObjectQuery_select_def)

lemma toColumnMetadata_flags:
  assumes "dom row \<subseteq> set columnsForObjectQuery_select"
  shows "\<not> isIdentity (toColumnMetadata row) \<and> \<not> isComputed (toColumnMetadata row)
     \<and> \<not> isRowGuid (toColumnMetadata row) \<and> defaultExpression (toColumnMetadata row) = None"
proof -
  have "row ''is_identity'' = None" "row ''is_computed'' = None" "row ''is_rowguidcol'' = None"
    "row ''default_definition'' = None"
    using assms unselected_fields by (auto simp: dom_def subset_iff)
  then show ?thesis
    by (simp add: toColumnMetadata_def absent_field)
qed

lemma populateColumns_result:
  "fst (populateColumns env connection table options s) =
     (case runQuery env (length (issued s))
             (columnsForObjectQuery (t_schema table) (t_name table) (queryDatabase connection options)) None of
        None \<Rightarrow> table
      | Some r \<Rightarrow> table\<lparr>t_columns := Some (map toColumnMetadata (rows r))\<rparr>)"
  by (simp add: populateColumns_def api_runQuery_def Let_def split: option.splits)

lemma populateColumns_state:
  "snd (populateColumns env connection table options s) =
     s\<lparr>issued := issued s @ [columnsForObjectQuery (t_schema table) (t_name table) (queryDatabase connection options)]\<rparr>"
  by (simp add: populateColumns_def api_runQuery_def Let_def split: option.splits)

text \<open>
  Claim C10. A row whose fields are among the result columns of
  \<^verbatim>\<open>columnsForObjectQuery\<close> has none of \<^verbatim>\<open>is_identity\<close>, \<^verbatim>\<open>is_computed\<close>,
  \<^verbatim>\<open>is_rowguidcol\<close>, \<^verbatim>\<open>default_definition\<close>, and \<^verbatim>\<open>toBoolean\<close> of the absent value is
  false: its column has \<^verbatim>\<open>isIdentity\<close>, \<^verbatim>\<open>isComputed\<close> and \<^verbatim>\<open>isRowGuid\<close> false and no
  \<^verbatim>\<open>defaultExpression\<close>. So when the columns query answers with such rows,
  \<^verbatim>\<open>populateColumns\<close> attaches one column for each row, all of them with these values.
\<close>

theorem columns_flags_false:
  "(dom row \<subseteq> set columnsForObjectQuery_select \<longrightarrow>
      \<not> isIdentity (toColumnMetadata row) \<and> \<not> isComputed (toColumnMetadata row)
      \<and> \<not> isRowGuid (toColumnMetadata row) \<and> defaultExpression (toColumnMetadata row) = None)
   \<and> (runQuery env (length (issued s))
         (columnsForObjectQuery (t_schema table) (t_name table) (queryDatabase connection options))
         None = Some r
       \<and> (\<forall>row \<in> set (rows r). dom row \<subseteq> set columnsForObjectQuery_select) \<longrightarrow>
       (\<exists>cols. t_columns (fst (populateColumns env connection table options s)) = Some cols
          \<and> length cols = length (rows r)
          \<and> (\<forall>c \<in> set cols. \<not> isIdentity c \<and> \<not> isComputed c \<and> \<not> isRowGuid c
                \<and> defaultExpression c = None)))
   \<and> toBoolean JUndefined = False"
proof -
  have a: "dom row \<subseteq> set columnsForObjectQuery_select \<longrightarrow>
      \<not> isIdentity (toColumnMetadata row) \<and> \<not> isComputed (toColumnMetadata row)
      \<and> \<not> isRowGuid (toColumnMetadata row) \<and> defaultExpression (toColumnMetadata row) = None"
    using toColumnMetadata_flags by blast
  have b: "runQuery env (length (issued s))
         (columnsForObjectQuery (t_schema table) (t_name table) (queryDatabase connection options))
         None = Some r
       \<and> (\<forall>row \<in> set (rows r). dom row \<subseteq> set columnsForObjectQuery_select) \<longrightarrow>
       (\<exists>cols. t_columns (fst (populateColumns env connection table options s)) = Some cols
          \<and> length cols = length (rows r)
          \<and> (\<forall>c \<in> set cols. \<not> isIdentity c \<and> \<not> isComputed c \<and> \<not> isRowGuid c
                \<and> defaultExpression c = None))"
  proof
    assume h: "runQuery env (length (issued s))
         (columnsForObjectQuery (t_schema table) (t_name table) (queryDatabase connection options))
         None = Some r
       \<and> (\<forall>row \<in> set (rows r). dom row \<subseteq> set columnsForObjectQuery_select)"
    then have "t_columns (fst (populateColumns env connection table options s)) =
        Some (map toColumnMetadata (rows r))"
      by (simp add: populateColumns_result)
    moreover from h have "\<forall>c \<in> set (map toColumnMetadata (rows r)).
        \<not> isIdentity c \<and> \<not> isComputed c \<and> \<not> isRowGuid c \<and> defaultExpression c = None"
      using toColumnMetadata_flags by auto
    ultimately show "\<exists>cols. t_columns (fst (populateColumns env connection table options s)) = Some cols
          \<and> length cols = length (rows r)
          \<and> (\<forall>c \<in> set cols. \<not> isIdentity c \<and> \<not> isComputed c \<and> \<not> isRowGuid c
                \<and> defaultExpression c = None)"
      by simp
  qed
  have c: "toBoolean JUndefined = False" by (simp add: toBoolean_def)
  from a b c show ?thesis by (intro conjI)
qed

theorem columns_flags_false_witness:
  "(let row = [''column_name'' \<mapsto> JStr ''Id'', ''data_type'' \<mapsto> JStr ''int'',
               ''max_length'' \<mapsto> JStr ''4'', ''precision'' \<mapsto> JStr ''10'', ''scale'' \<mapsto> JStr ''0'',
               ''is_nullable'' \<mapsto> JStr ''0'', ''description'' \<mapsto> JNull];
        env = \<lparr>runQuery = (\<lambda>n q t. Some \<lparr>columns = columnsForObjectQuery_select, rows = [row]\<rparr>),
               dateNow = (\<lambda>n. 0)\<rparr>;
        table = \<lparr>t_schema = ''dbo'', t_name = ''Orders'', t_type = TABLE, t_description = None,
                 t_columns = None\<rparr>
    in dom row \<subseteq> set columnsForObjectQuery_select
       \<and> \<not> isIdentity (toColumnMetadata row) \<and> defaultExpression (toColumnMetadata row) = None
       \<and> (\<exists>cols. t_columns (fst (populateColumns env None table None
                      \<lparr>cache = Map.empty, issued = []\<rparr>)) = Some cols
            \<and> length cols = 1
            \<and> (\<forall>c \<in> set cols. \<not> isIdentity c \<and> \<not> isComputed c \<and> \<not> isRowGuid c
                  \<and> defaultExpression c = None)))"
proof -
  define row where "row = [''column_name'' \<mapsto> JStr ''Id'', ''data_type'' \<mapsto> JStr ''int'',
               ''max_length'' \<mapsto> JStr ''4'', ''precision'' \<mapsto> JStr ''10'', ''scale'' \<mapsto> JStr ''0'',
               ''is_nullable'' \<mapsto> JStr ''0'', ''description'' \<mapsto> JNull]"
  define env where "env = \<lparr>runQuery = (\<lambda>n q t. Some \<lparr>columns = columnsForObjectQuery_select, rows = [row]\<rparr>),
               dateNow = (\<lambda>n. 0::nat)\<rparr>"
  define table where "table = \<lparr>t_schema = ''dbo'', t_name = ''Orders'', t_type = TABLE,
      t_description = None, t_columns = None\<rparr>"
  define s where "s = \<lparr>cache = Map.empty, issued = []\<rparr>"
  have d: "dom row \<subseteq> set columnsForObjectQuery_select"
    by (simp add: row_def columnsForObjectQuery_select_def)
  note t = columns_flags_false [of row env s table None None "\<lparr>columns = columnsForObjectQuery_select, rows = [row]\<rparr>"]
  have q: "runQuery env (length (issued s))
         (columnsForObjectQuery (t_schema table) (t_name table) (queryDatabase None None))
         None = Some \<lparr>columns = columnsForObjectQuery_select, rows = [row]\<rparr>"
    by (simp add: env_def)
  from t d have a: "\<not> isIdentity (toColumnMetadata row) \<and> defaultExpression (toColumnMetadata row) = None"
    by blast
  from t q d have "\<exists>cols. t_columns (fst (populateColumns env None table None s)) = Some cols
          \<and> length cols = length (rows \<lparr>columns = columnsForObjectQuery_select, rows = [row]\<rparr>)
          \<and> (\<forall>c \<in> set cols. \<not> isIdentity c \<and> \<not> isComputed c \<and> \<not> isRowGuid c
                \<and> defaultExpression c = None)"
    by simp
  then have b: "\<exists>cols. t_columns (fst (populateColumns env None table None s)) = Some cols
          \<and> length cols = 1
          \<and> (\<forall>c \<in> set cols. \<not> isIdentity c \<and> \<not> isComputed c \<and> \<not> isRowGuid c
                \<and> defaultExpression c = None)"
    by simp
  from d a b show ?thesis
    unfolding Let_def row_def [symmetric] env_def [symmetric] table_def [symmetric] s_def [symmetric]
    by blast
qed


section \<open>Loading a table on demand\<close>

lemma populateColumns_type: "t_type (fst (populateColumns env c t opts s)) = t_type t"
  by (simp add: populateColumns_result split: option.splits)

lemma populateDescription_result:
  "fst (populateDescription env connection table options s) =
     (let d = fst (api_runScalar env
                (extendedPropertyDescriptionQuery (t_schema table) (t_name table)
                   (queryDatabase connection options)) s)
      in if truthy d then table\<lparr>t_description := Some d\<rparr> else table)"
  by (simp add: populateDescription_def Let_def split: prod.splits)

lemma api_runScalar_state:
  "snd (api_runScalar env q s) = s\<lparr>issued := issued s @ [q]\<rparr>"
  by (simp add: api_runScalar_def api_runQuery_def split: option.splits)

lemma populateDescription_state:
  "snd (populateDescription env connection table options s) =
     s\<lparr>issued := issued s @ [extendedPropertyDescriptionQuery (t_schema table) (t_name table)
                                (queryDatabase connection options)]\<rparr>"
proof -
  let ?q = "extendedPropertyDescriptionQuery (t_schema table) (t_name table)
              (queryDatabase connection options)"
  obtain d s' where e: "api_runScalar env ?q s = (d, s')" by (cases "api_runScalar env ?q s")
  with api_runScalar_state [of env ?q s] have "s' = s\<lparr>issued := issued s @ [?q]\<rparr>" by simp
  with e show ?thesis by (simp add: populateDescription_def Let_def)
qed

lemma populateDescription_type: "t_type (fst (populateDescription env c t opts s)) = t_type t"
  by (simp add: populateDescription_result Let_def)

lemma loadTableOnDemand_type:
  "loadTableOnDemand env connection sch name options s = (Some t, s') \<Longrightarrow> t_type t = TABLE"
proof -
  assume a: "loadTableOnDemand env connection sch name options s = (Some t, s')"
  define t0 where "t0 = \<lparr>t_schema = sch, t_name = name, t_type = TABLE,
                      t_description = None, t_columns = None\<rparr>"
  define t1 where "t1 = fst (populateColumns env connection t0 options s)"
  define s1 where "s1 = snd (populateColumns env connection t0 options s)"
  from a have "t = fst (populateDescription env connection t1 options s1)"
    unfolding loadTableOnDemand_def t0_def [symmetric] Let_def
    by (auto simp: t1_def s1_def split: if_splits prod.splits)
  then have "t_type t = t_type t1" by (simp add: populateDescription_type)
  also have "\<dots> = t_type t0" by (simp add: t1_def populateColumns_type)
  finally show ?thesis by (simp add: t0_def)
qed

lemma fillTable_type:
  "fillTable env connection options ck key table s = (Some t, s') \<Longrightarrow> t_type t = t_type table"
  unfolding fillTable_def
  by (auto split: if_splits prod.splits simp: populateColumns_type populateDescription_type
      dest!: arg_cong [where f = fst])

lemma loadTableCrossDatabase_type:
  "loadTableCrossDatabase env c db sch name s = (Some t, s') \<Longrightarrow> t_type t = TABLE"
  unfolding loadTableCrossDatabase_def Let_def by (rule loadTableOnDemand_type)

lemma getTable_on_demand_type:
  assumes g: "getTable env connection sch name token options s = (Some t, s')"
    and a: "crossDatabase connection options
       \<or> (case fst (ensureCache env connection token s) of
            None \<Rightarrow> True
          | Some e \<Rightarrow> map_of (tables e) (toObjectKey sch name) = None)"
  shows "t_type t = TABLE"
proof (cases "crossDatabase connection options")
  case True
  with g show ?thesis by (simp add: getTable_def loadTableCrossDatabase_type)
next
  case False
  obtain entry s1 where e: "ensureCache env connection token s = (entry, s1)"
    by (cases "ensureCache env connection token s")
  show ?thesis
  proof (cases entry)
    case None
    with g False e show ?thesis by (simp add: getTable_def loadTableOnDemand_type)
  next
    case (Some en)
    with a False e have m: "map_of (tables en) (toObjectKey sch name) = None" by simp
    obtain loaded s2 where l: "loadTableOnDemand env connection sch name options s1 = (loaded, s2)"
      by (cases "loadTableOnDemand env connection sch name options s1")
    from g False e Some m l obtain table where lt: "loaded = Some table"
      and f: "fillTable env connection options (the (getConnectionKey connection))
                (toObjectKey sch name) table
                (setTable (the (getConnectionKey connection)) (toObjectKey sch name) table s2)
              = (Some t, s')"
      by (cases loaded) (simp_all add: getTable_def Let_def)
    from l lt have "t_type table = TABLE" by (simp add: loadTableOnDemand_type)
    with fillTable_type [OF f] show ?thesis by simp
  qed
qed

text \<open>
  Claim C9. A table that \<^verbatim>\<open>loadTableOnDemand\<close> or \<^verbatim>\<open>loadTableCrossDatabase\<close> returns
  has type \<^verbatim>\<open>TABLE\<close>, and so has the table that \<^verbatim>\<open>getTable\<close> returns when the call is
  for another database, or when the cache has no entry for the connection or the
  entry does not hold the object: the type is set when the record is made and no
  answer of the loader changes it.
\<close>

theorem on_demand_type_is_table:
  "(loadTableOnDemand env connection sch name options s = (Some t, s') \<longrightarrow> t_type t = TABLE)
   \<and> (loadTableCrossDatabase env c db sch name s = (Some t, s') \<longrightarrow> t_type t = TABLE)
   \<and> (getTable env connection sch name token options s = (Some t, s')
       \<and> (crossDatabase connection options
          \<or> (case fst (ensureCache env connection token s) of
               None \<Rightarrow> True
             | Some e \<Rightarrow> map_of (tables e) (toObjectKey sch name) = None))
       \<longrightarrow> t_type t = TABLE)"
proof (intro conjI impI)
  assume "loadTableOnDemand env connection sch name options s = (Some t, s')"
  then show "t_type t = TABLE" by (rule loadTableOnDemand_type)
next
  assume "loadTableCrossDatabase env c db sch name s = (Some t, s')"
  then show "t_type t = TABLE" by (rule loadTableCrossDatabase_type)
next
  assume "getTable env connection sch name token options s = (Some t, s')
       \<and> (crossDatabase connection options
          \<or> (case fst (ensureCache env connection token s) of
               None \<Rightarrow> True
             | Some e \<Rightarrow> map_of (tables e) (toObjectKey sch name) = None))"
  then show "t_type t = TABLE"
    using getTable_on_demand_type [of env connection sch name token options s t s'] by simp
qed

theorem on_demand_type_is_table_witness:
  "(let env = \<lparr>runQuery = (\<lambda>n q t. if n = 1
                   then Some \<lparr>columns = columnsForObjectQuery_select,
                              rows = [[''column_name'' \<mapsto> JStr ''Id'', ''data_type'' \<mapsto> JStr ''int'',
                                       ''max_length'' \<mapsto> JStr ''4'', ''precision'' \<mapsto> JStr ''10'',
                                       ''scale'' \<mapsto> JStr ''0'', ''is_nullable'' \<mapsto> JStr ''0'']]\<rparr>
                   else None),
               dateNow = (\<lambda>n. 0)\<rparr>;
        c = \<lparr>connectionId = Some ''c1'', server = Some ''srv'',
              conn_database = Some ''Shop'', user = None\<rparr>;
        s0 = \<lparr>cache = Map.empty, issued = []\<rparr>;
        s1 = \<lparr>cache = Map.empty, issued = [''select 1'']\<rparr>;
        r = getTable env (Some c) ''dbo'' ''OrdersView'' None None s0
    in \<not> crossDatabase (Some c) None
       \<and> map_option tables (fst (ensureCache env (Some c) None s0)) = Some []
       \<and> map_option t_name (fst r) = Some ''OrdersView''
       \<and> map_option t_type (fst r) = Some TABLE
       \<and> map_option t_type (fst (loadTableOnDemand env (Some c) ''dbo'' ''OrdersView'' None s1))
           = Some TABLE
       \<and> map_option t_type (fst (loadTableCrossDatabase env c ''Archive'' ''dbo'' ''OrdersView'' s1))
           = Some TABLE)"
proof -
  define env where "env = \<lparr>runQuery = (\<lambda>n (q :: string) (t :: CancellationToken option). if n = (1 :: nat)
                   then Some \<lparr>columns = columnsForObjectQuery_select,
                              rows = [[''column_name'' \<mapsto> JStr ''Id'', ''data_type'' \<mapsto> JStr ''int'',
                                       ''max_length'' \<mapsto> JStr ''4'', ''precision'' \<mapsto> JStr ''10'',
                                       ''scale'' \<mapsto> JStr ''0'', ''is_nullable'' \<mapsto> JStr ''0'']]\<rparr>
                   else None),
               dateNow = (\<lambda>n. 0 :: nat)\<rparr>"
  define c where "c = \<lparr>connectionId = Some ''c1'', server = Some ''srv'',
                     conn_database = Some ''Shop'', user = None\<rparr>"
  define s0 where "s0 = \<lparr>cache = Map.empty, issued = ([] :: string list)\<rparr>"
  define s1 where "s1 = \<lparr>cache = Map.empty, issued = [''select 1'']\<rparr>"
  define r where "r = getTable env (Some c) ''dbo'' ''OrdersView'' None None s0"
  define d where "d = loadTableOnDemand env (Some c) ''dbo'' ''OrdersView'' None s1"
  define x where "x = loadTableCrossDatabase env c ''Archive'' ''dbo'' ''OrdersView'' s1"
  have nx: "\<not> crossDatabase (Some c) None" unfolding c_def by code_simp
  have e: "map_option tables (fst (ensureCache env (Some c) None s0)) = Some []"
    unfolding env_def c_def s0_def by code_simp
  have n: "map_option t_name (fst r) = Some ''OrdersView''"
    unfolding r_def env_def c_def s0_def by code_simp
  have nd: "map_option t_name (fst d) = Some ''OrdersView''"
    unfolding d_def env_def c_def s1_def by code_simp
  have nc: "map_option t_name (fst x) = Some ''OrdersView''"
    unfolding x_def env_def c_def s1_def by code_simp
  from n obtain t where t: "fst r = Some t" by (cases "fst r") simp_all
  then have g: "getTable env (Some c) ''dbo'' ''OrdersView'' None None s0 = (Some t, snd r)"
    unfolding r_def by (simp add: prod_eq_iff)
  from e have m: "case fst (ensureCache env (Some c) None s0) of None \<Rightarrow> True
      | Some en \<Rightarrow> map_of (tables en) (toObjectKey ''dbo'' ''OrdersView'') = None"
    by (cases "fst (ensureCache env (Some c) None s0)") simp_all
  from on_demand_type_is_table [of env "Some c" "''dbo''" "''OrdersView''" None s0 t "snd r" _ _ None] g m
  have "t_type t = TABLE" by blast
  with t have ty: "map_option t_type (fst r) = Some TABLE" by simp
  from nd obtain td where td: "fst d = Some td" by (cases "fst d") simp_all
  then have gd: "loadTableOnDemand env (Some c) ''dbo'' ''OrdersView'' None s1 = (Some td, snd d)"
    unfolding d_def by (simp add: prod_eq_iff)
  from on_demand_type_is_table [of env "Some c" "''dbo''" "''OrdersView''" None s1 td "snd d"] gd
  have "t_type td = TABLE" by blast
  with td have tyd: "map_option t_type (fst d) = Some TABLE" by simp
  from nc obtain tx where tx: "fst x = Some tx" by (cases "fst x") simp_all
  then have gx: "loadTableCrossDatabase env c ''Archive'' ''dbo'' ''OrdersView'' s1 = (Some tx, snd x)"
    unfolding x_def by (simp add: prod_eq_iff)
  from on_demand_type_is_table [of env _ "''dbo''" "''OrdersView''" _ s1 tx "snd x" c "''Archive''"] gx
  have "t_type tx = TABLE" by blast
  with tx have tyx: "map_option t_type (fst x) = Some TABLE" by simp
  from nx e n ty tyd tyx show ?thesis
    unfolding Let_def env_def [symmetric] c_def [symmetric] s0_def [symmetric] s1_def [symmetric]
      r_def [symmetric] d_def [symmetric] x_def [symmetric]
    by simp
qed


section \<open>The bulk snapshot\<close>

lemma joinBar_nonempty: "p \<noteq> [] \<Longrightarrow> joinBar (p # ps) \<noteq> []"
  by (cases ps) simp_all

lemma trim_Nil: "trim [] = []"
  by (simp add: trim_def trimEnd_def trimStart_def)

lemma getConnectionKey_nonempty:
  assumes "getConnectionKey connection = Some key"
  shows "key \<noteq> []"
proof -
  from assms obtain c where c: "connection = Some c" by (cases connection) (simp_all add: getConnectionKey_def)
  define parts where "parts = map the
                 (filter (\<lambda>part. case part of None \<Rightarrow> False | Some p \<Rightarrow> length (trim p) > 0)
                    [connectionId c, server c, conn_database c, user c])"
  from assms c have "(if parts \<noteq> [] then Some (joinBar parts) else None) = Some key"
    unfolding getConnectionKey_def parts_def Let_def by simp
  then have k: "parts \<noteq> []" "key = joinBar parts"
    by (auto split: if_splits)
  have "\<forall>p \<in> set parts. p \<noteq> []"
    unfolding parts_def using trim_Nil by (auto split: option.splits)
  with k show ?thesis by (cases parts) (simp_all add: joinBar_nonempty)
qed

lemma ensureCache_cached:
  "getConnectionKey connection = Some key \<Longrightarrow> cache s key = Some e \<Longrightarrow>
   ensureCache env connection token s = (Some e, s)"
  using getConnectionKey_nonempty [of connection key] by (simp add: ensureCache_def)

lemma ensureCache_failed:
  assumes "getConnectionKey connection = Some key" "cache s key = None"
    and "runQuery env (length (issued s)) (allObjectsQuery (databaseOf connection)) token = None"
  shows "ensureCache env connection token s =
     (Some \<lparr>tables = [], routines = [], foreignKeys = [],
            timestamp = dateNow env (Suc (length (issued s)))\<rparr>,
      s\<lparr>issued := issued s @ [allObjectsQuery (databaseOf connection)],
        cache := (cache s)(key \<mapsto> \<lparr>tables = [], routines = [], foreignKeys = [],
            timestamp = dateNow env (Suc (length (issued s)))\<rparr>)\<rparr>)"
  using assms getConnectionKey_nonempty [of connection key]
  by (simp add: ensureCache_def api_runQuery_def Let_def)

lemma ensureCache_holds:
  assumes "getConnectionKey connection = Some key"
  shows "\<exists>e s1. ensureCache env connection token s = (Some e, s1) \<and> cache s1 key = Some e"
proof (cases "cache s key")
  case (Some e)
  with assms ensureCache_cached show ?thesis by fastforce
next
  case None
  with assms getConnectionKey_nonempty [of connection key] show ?thesis
    by (simp add: ensureCache_def api_runQuery_def Let_def split: option.splits prod.splits)
qed

text \<open>
  Claim C1, as the code has it. The loader fails on the first query and would answer
  every later one. \<^verbatim>\<open>getTables\<close> returns the empty list, and \<^verbatim>\<open>ensureCache\<close> has
  stored an entry with no tables under the connection key, where the cache had none
  before the call: the cache is not left as it was. The next \<^verbatim>\<open>getTables\<close> finds that
  entry, returns the empty list and sends no query, though the loader would now
  answer: the fetch is not attempted again.
\<close>

theorem failed_snapshot_counterexample:
  "(let env = \<lparr>runQuery = (\<lambda>n q t. if n = 0 then None
                   else Some \<lparr>columns = [''schema_name'', ''object_name'', ''object_type''],
                              rows = [[''schema_name'' \<mapsto> JStr ''dbo'', ''object_name'' \<mapsto> JStr ''Orders'',
                                       ''object_type'' \<mapsto> JStr ''U'']]\<rparr>),
               dateNow = (\<lambda>n. 0)\<rparr>;
        conn = Some \<lparr>connectionId = Some ''c1'', server = Some ''srv'',
                     conn_database = Some ''Shop'', user = None\<rparr>;
        s0 = \<lparr>cache = Map.empty, issued = []\<rparr>;
        s1 = snd (getTables env conn None s0);
        s2 = snd (getTables env conn None s1)
    in getConnectionKey conn = Some ''c1|srv|Shop''
       \<and> cache s0 ''c1|srv|Shop'' = None
       \<and> fst (getTables env conn None s0) = []
       \<and> cache s1 ''c1|srv|Shop'' =
           Some \<lparr>tables = [], routines = [], foreignKeys = [], timestamp = 0\<rparr>
       \<and> issued s1 = [allObjectsQuery (Some ''Shop'')]
       \<and> runQuery env (length (issued s1)) (allObjectsQuery (Some ''Shop'')) None \<noteq> None
       \<and> fst (getTables env conn None s1) = []
       \<and> issued s2 = issued s1)"
  by code_simp

text \<open>
  Claim C1, amended. When the cache has no entry for the connection key and the
  object list query fails (the loader answers \<^verbatim>\<open>undefined\<close>, as it also does when the
  call is cancelled), \<^verbatim>\<open>getTables\<close> returns the empty list and \<^verbatim>\<open>ensureCache\<close> stores
  for the key an entry with no tables, no routines and no foreign keys, after that
  one query. Every \<^verbatim>\<open>getTables\<close> that follows returns the tables of that entry, none,
  sends no query and leaves the state as it is; the object list is fetched again only
  after \<^verbatim>\<open>invalidate\<close> has removed the entry.
\<close>

theorem failed_snapshot_caches_empty_entry:
  assumes "getConnectionKey connection = Some key"
    and "cache s key = None"
    and "runQuery env (length (issued s)) (allObjectsQuery (databaseOf connection)) token = None"
  shows "let s1 = snd (getTables env connection token s);
             entry = \<lparr>tables = [], routines = [], foreignKeys = [],
                      timestamp = dateNow env (Suc (length (issued s)))\<rparr>
         in fst (getTables env connection token s) = []
            \<and> s1 = s\<lparr>issued := issued s @ [allObjectsQuery (databaseOf connection)],
                     cache := (cache s)(key \<mapsto> entry)\<rparr>
            \<and> cache s1 key = Some entry
            \<and> (\<forall>token'. getTables env connection token' s1 = ([], s1))
            \<and> cache (invalidate connection s1) key = None"
proof -
  define entry where "entry = \<lparr>tables = [], routines = [], foreignKeys = [],
                      timestamp = dateNow env (Suc (length (issued s)))\<rparr>"
  define s1 where "s1 = s\<lparr>issued := issued s @ [allObjectsQuery (databaseOf connection)],
                     cache := (cache s)(key \<mapsto> entry)\<rparr>"
  have e: "ensureCache env connection token s = (Some entry, s1)"
    unfolding entry_def s1_def using assms by (rule ensureCache_failed)
  have g: "getTables env connection token s = ([], s1)"
    by (simp add: getTables_def e entry_def)
  have c: "cache s1 key = Some entry" by (simp add: s1_def)
  have again: "\<And>token'. getTables env connection token' s1 = ([], s1)"
    using ensureCache_cached [OF assms(1) c] by (simp add: getTables_def entry_def)
  have inv: "cache (invalidate connection s1) key = None"
    using assms(1) getConnectionKey_nonempty [OF assms(1)] by (simp add: invalidate_def)
  from g c again inv show ?thesis
    unfolding Let_def entry_def [symmetric] s1_def [symmetric] by simp
qed

theorem failed_snapshot_caches_empty_entry_witness:
  "(let env = \<lparr>runQuery = (\<lambda>n q t. None), dateNow = (\<lambda>n. 7)\<rparr>;
        conn = Some \<lparr>connectionId = Some ''c1'', server = Some ''srv'',
                     conn_database = Some ''Shop'', user = None\<rparr>;
        s0 = \<lparr>cache = Map.empty, issued = []\<rparr>;
        s1 = snd (getTables env conn None s0)
    in getConnectionKey conn = Some ''c1|srv|Shop''
       \<and> cache s0 ''c1|srv|Shop'' = None
       \<and> runQuery env (length (issued s0)) (allObjectsQuery (databaseOf conn)) None = None
       \<and> fst (getTables env conn None s0) = []
       \<and> cache s1 ''c1|srv|Shop'' =
           Some \<lparr>tables = [], routines = [], foreignKeys = [], timestamp = 7\<rparr>
       \<and> getTables env conn None s1 = ([], s1))"
proof -
  define env where "env = \<lparr>runQuery = (\<lambda>n q t. None :: QueryResult option), dateNow = (\<lambda>n. 7 :: nat)\<rparr>"
  define conn where "conn = Some \<lparr>connectionId = Some ''c1'', server = Some ''srv'',
                     conn_database = Some ''Shop'', user = None\<rparr>"
  define s0 where "s0 = \<lparr>cache = Map.empty, issued = ([] :: string list)\<rparr>"
  have k: "getConnectionKey conn = Some ''c1|srv|Shop''" unfolding conn_def by code_simp
  have c: "cache s0 ''c1|srv|Shop'' = None" by (simp add: s0_def)
  have q: "runQuery env (length (issued s0)) (allObjectsQuery (databaseOf conn)) None = None"
    by (simp add: env_def)
  note t = failed_snapshot_caches_empty_entry [OF k c q, unfolded Let_def]
  from t have a: "fst (getTables env conn None s0) = []" by blast
  from t have b: "cache (snd (getTables env conn None s0)) ''c1|srv|Shop'' =
      Some \<lparr>tables = [], routines = [], foreignKeys = [], timestamp = 7\<rparr>"
    by (simp add: env_def)
  from t have d: "getTables env conn None (snd (getTables env conn None s0)) =
      ([], snd (getTables env conn None s0))"
    by blast
  from k c q a b d show ?thesis
    unfolding Let_def env_def [symmetric] conn_def [symmetric] s0_def [symmetric] by simp
qed


section \<open>Another database\<close>

lemma loadTableOnDemand_cache:
  "cache (snd (loadTableOnDemand env connection sch name options s)) = cache s"
  unfolding loadTableOnDemand_def Let_def
  using populateColumns_state populateDescription_state
  by (auto split: prod.splits if_splits dest!: arg_cong [where f = snd])

lemma populateColumns_other_cache:
  "populateColumns env c t opts (s\<lparr>cache := c'\<rparr>) =
     (fst (populateColumns env c t opts s), (snd (populateColumns env c t opts s))\<lparr>cache := c'\<rparr>)"
  by (simp add: prod_eq_iff populateColumns_result populateColumns_state)

lemma populateDescription_other_cache:
  "populateDescription env c t opts (s\<lparr>cache := c'\<rparr>) =
     (fst (populateDescription env c t opts s), (snd (populateDescription env c t opts s))\<lparr>cache := c'\<rparr>)"
proof -
  have "fst (api_runScalar env q (s\<lparr>cache := c'\<rparr>)) = fst (api_runScalar env q s)" for q
    by (simp add: api_runScalar_def api_runQuery_def split: option.splits)
  then show ?thesis
    by (simp add: prod_eq_iff populateDescription_result populateDescription_state)
qed

lemma loadTableOnDemand_other_cache:
  "loadTableOnDemand env c sch name opts (s\<lparr>cache := c'\<rparr>) =
     (fst (loadTableOnDemand env c sch name opts s),
      (snd (loadTableOnDemand env c sch name opts s))\<lparr>cache := c'\<rparr>)"
  unfolding loadTableOnDemand_def Let_def
  by (simp add: populateColumns_other_cache populateDescription_other_cache case_prod_beta)

section \<open>Two calls in a row\<close>

lemma populateColumns_names:
  "t_schema (fst (populateColumns env c t opts s)) = t_schema t"
  "t_name (fst (populateColumns env c t opts s)) = t_name t"
  "t_description (fst (populateColumns env c t opts s)) = t_description t"
  by (simp_all add: populateColumns_result split: option.splits)

lemma populateDescription_names:
  "t_schema (fst (populateDescription env c t opts s)) = t_schema t"
  "t_name (fst (populateDescription env c t opts s)) = t_name t"
  "t_columns (fst (populateDescription env c t opts s)) = t_columns t"
  by (simp_all add: populateDescription_result Let_def)

lemma populateColumns_same:
  assumes "sameAnswers env"
  shows "fst (populateColumns env c t opts s) = fst (populateColumns env c t opts s')"
proof -
  from assms have "runQuery env (length (issued s)) q None = runQuery env (length (issued s')) q None" for q
    unfolding sameAnswers_def by blast
  then show ?thesis by (simp add: populateColumns_result)
qed

lemma api_runScalar_same:
  "sameAnswers env \<Longrightarrow> fst (api_runScalar env q s) = fst (api_runScalar env q s')"
proof -
  assume "sameAnswers env"
  then have "runQuery env (length (issued s)) q None = runQuery env (length (issued s')) q None"
    unfolding sameAnswers_def by blast
  then show ?thesis
    by (simp add: api_runScalar_def api_runQuery_def split: option.splits)
qed

lemma populateDescription_same:
  assumes "sameAnswers env"
  shows "fst (populateDescription env c t opts s) = fst (populateDescription env c t opts s')"
  using api_runScalar_same [OF assms, of _ s s'] by (simp add: populateDescription_result)

lemma loadTableOnDemand_same:
  assumes "sameAnswers env"
  shows "fst (loadTableOnDemand env c sch name opts s) = fst (loadTableOnDemand env c sch name opts s')"
proof -
  define t0 where "t0 = \<lparr>t_schema = sch, t_name = name, t_type = TABLE,
                      t_description = None, t_columns = None\<rparr>"
  have p: "fst (populateColumns env c t0 opts s) = fst (populateColumns env c t0 opts s')"
    using assms by (rule populateColumns_same)
  have d: "fst (populateDescription env c t opts s1) = fst (populateDescription env c t opts s2)" for t s1 s2
    using assms by (rule populateDescription_same)
  show ?thesis
    unfolding loadTableOnDemand_def t0_def [symmetric] Let_def
    using p d by (simp add: case_prod_beta)
qed

lemma setTable_issued: "issued (setTable ck k t s) = issued s"
  by (simp add: setTable_def split: option.splits)

lemma setTable_stored:
  "cache s ck = Some e \<Longrightarrow>
   \<exists>e'. cache (setTable ck k t s) ck = Some e' \<and> map_of (tables e') k = Some t"
  by (simp add: setTable_def update_conv')

lemma populateColumns_cache: "cache (snd (populateColumns env c t opts s)) = cache s"
  by (simp add: populateColumns_state)

lemma populateDescription_cache: "cache (snd (populateDescription env c t opts s)) = cache s"
  by (simp add: populateDescription_state)

lemma fillTable_unfold:
  "fillTable env c opts ck k table s =
     (let t1 = (if t_columns table = None then fst (populateColumns env c table opts s) else table);
          s1 = (if t_columns table = None
                then setTable ck k t1 (snd (populateColumns env c table opts s)) else s);
          t2 = (if noDescription t1 then fst (populateDescription env c t1 opts s1) else t1);
          s2 = (if noDescription t1
                then setTable ck k t2 (snd (populateDescription env c t1 opts s1)) else s1)
      in (Some t2, s2))"
  by (simp add: fillTable_def Let_def case_prod_beta)

lemma fillTable_settles:
  assumes det: "sameAnswers env"
    and f: "fillTable env c opts ck k table s = (Some t, s')"
  shows "(t_columns t = None \<longrightarrow>
            (\<forall>n. runQuery env n
               (columnsForObjectQuery (t_schema t) (t_name t) (queryDatabase c opts)) None = None))
     \<and> (noDescription t \<longrightarrow>
            (\<forall>s''. \<not> truthy (fst (api_runScalar env
               (extendedPropertyDescriptionQuery (t_schema t) (t_name t) (queryDatabase c opts)) s''))))"
proof -
  define t1 where "t1 = (if t_columns table = None then fst (populateColumns env c table opts s) else table)"
  define s1 where "s1 = (if t_columns table = None
                then setTable ck k t1 (snd (populateColumns env c table opts s)) else s)"
  from f have t: "t = (if noDescription t1 then fst (populateDescription env c t1 opts s1) else t1)"
    unfolding fillTable_unfold Let_def t1_def [symmetric] s1_def [symmetric] by simp
  have n1: "t_schema t1 = t_schema table" "t_name t1 = t_name table"
    by (simp_all add: t1_def populateColumns_names)
  have n: "t_schema t = t_schema t1" "t_name t = t_name t1" "t_columns t = t_columns t1"
    by (simp_all add: t populateDescription_names)
  have a: "\<forall>n. runQuery env n
               (columnsForObjectQuery (t_schema t) (t_name t) (queryDatabase c opts)) None = None"
    if "t_columns t = None"
  proof -
    from that n have c1: "t_columns t1 = None" by simp
    then have c0: "t_columns table = None" by (auto simp: t1_def split: if_splits)
    with c1 have "t_columns (fst (populateColumns env c table opts s)) = None" by (simp add: t1_def)
    then have "runQuery env (length (issued s))
        (columnsForObjectQuery (t_schema table) (t_name table) (queryDatabase c opts)) None = None"
      by (simp add: populateColumns_result split: option.splits)
    with det show ?thesis unfolding sameAnswers_def n n1 by metis
  qed
  have b: "\<forall>s''. \<not> truthy (fst (api_runScalar env
               (extendedPropertyDescriptionQuery (t_schema t) (t_name t) (queryDatabase c opts)) s''))"
    if "noDescription t"
  proof -
    from that have d1: "noDescription t1" by (auto simp: t split: if_splits)
    with that have "noDescription (fst (populateDescription env c t1 opts s1))" by (simp add: t)
    then have "\<not> truthy (fst (api_runScalar env
        (extendedPropertyDescriptionQuery (t_schema t1) (t_name t1) (queryDatabase c opts)) s1))"
      by (auto simp: populateDescription_result Let_def noDescription_def split: if_splits)
    with api_runScalar_same [OF det] show ?thesis unfolding n by metis
  qed
  from a b show ?thesis by blast
qed

lemma fillTable_settled:
  assumes a: "t_columns t = None \<longrightarrow>
            (\<forall>n. runQuery env n
               (columnsForObjectQuery (t_schema t) (t_name t) (queryDatabase c opts)) None = None)"
    and b: "noDescription t \<longrightarrow>
            (\<forall>s''. \<not> truthy (fst (api_runScalar env
               (extendedPropertyDescriptionQuery (t_schema t) (t_name t) (queryDatabase c opts)) s'')))"
  shows "fst (fillTable env c opts ck k t s) = Some t
     \<and> issued (snd (fillTable env c opts ck k t s)) = issued s
          @ (if t_columns t = None
             then [columnsForObjectQuery (t_schema t) (t_name t) (queryDatabase c opts)] else [])
          @ (if noDescription t
             then [extendedPropertyDescriptionQuery (t_schema t) (t_name t) (queryDatabase c opts)]
             else [])"
proof -
  have p: "fst (populateColumns env c t opts s) = t" if "t_columns t = None"
    using a that by (simp add: populateColumns_result)
  have d: "fst (populateDescription env c t opts s'') = t" if "noDescription t" for s''
    using b that by (simp add: populateDescription_result Let_def)
  show ?thesis
    unfolding fillTable_unfold Let_def
    by (simp add: p d setTable_issued populateColumns_state populateDescription_state)
qed

lemma fillTable_stored:
  assumes "cache s ck = Some e" and "map_of (tables e) k = Some table"
  shows "\<exists>e'. cache (snd (fillTable env c opts ck k table s)) ck = Some e'
     \<and> map_of (tables e') k = fst (fillTable env c opts ck k table s)"
proof -
  define t1 where "t1 = (if t_columns table = None then fst (populateColumns env c table opts s) else table)"
  define s1 where "s1 = (if t_columns table = None
                then setTable ck k t1 (snd (populateColumns env c table opts s)) else s)"
  have 1: "\<exists>e1. cache s1 ck = Some e1 \<and> map_of (tables e1) k = Some t1"
  proof (cases "t_columns table = None")
    case True
    have "cache (snd (populateColumns env c table opts s)) ck = Some e"
      using assms(1) by (simp add: populateColumns_cache)
    from setTable_stored [OF this] True show ?thesis by (simp add: s1_def)
  next
    case False
    then have "s1 = s" "t1 = table" by (auto simp: s1_def t1_def)
    with assms show ?thesis by simp
  qed
  then obtain e1 where e1: "cache s1 ck = Some e1" "map_of (tables e1) k = Some t1" by blast
  show ?thesis
  proof (cases "noDescription t1")
    case True
    have "cache (snd (populateDescription env c t1 opts s1)) ck = Some e1"
      using e1(1) by (simp add: populateDescription_cache)
    from setTable_stored [OF this] True show ?thesis
      unfolding fillTable_unfold Let_def t1_def [symmetric] s1_def [symmetric] by simp
  next
    case False
    with e1 show ?thesis
      unfolding fillTable_unfold Let_def t1_def [symmetric] s1_def [symmetric] by simp
  qed
qed

lemma columns_query_not_description_query:
  "columnsForObjectQuery a b d \<noteq> extendedPropertyDescriptionQuery a' b' d'"
  by (simp add: columnsForObjectQuery_def extendedPropertyDescriptionQuery_def Let_def)

lemma getTable_cached_path:
  assumes key: "getConnectionKey connection = Some ck"
    and nx: "\<not> crossDatabase connection options"
    and c: "cache s ck = Some e"
  shows "getTable env connection sch name token options s =
     (case map_of (tables e) (toObjectKey sch name) of
        Some table \<Rightarrow> fillTable env connection options ck (toObjectKey sch name) table s
      | None \<Rightarrow>
          (case loadTableOnDemand env connection sch name options s of
             (loaded, s2) \<Rightarrow>
               (case loaded of
                  None \<Rightarrow> (None, s2)
                | Some table \<Rightarrow>
                    fillTable env connection options ck (toObjectKey sch name) table
                      (setTable ck (toObjectKey sch name) table s2))))"
  using nx key ensureCache_cached [OF key c] by (simp add: getTable_def Let_def)

lemma getTable_after_ensure:
  assumes key: "getConnectionKey connection = Some ck"
    and nx: "\<not> crossDatabase connection options"
    and e: "ensureCache env connection token s = (Some e, sa)"
  shows "getTable env connection sch name token options s =
     (case map_of (tables e) (toObjectKey sch name) of
        Some table \<Rightarrow> fillTable env connection options ck (toObjectKey sch name) table sa
      | None \<Rightarrow>
          (case loadTableOnDemand env connection sch name options sa of
             (loaded, s2) \<Rightarrow>
               (case loaded of
                  None \<Rightarrow> (None, s2)
                | Some table \<Rightarrow>
                    fillTable env connection options ck (toObjectKey sch name) table
                      (setTable ck (toObjectKey sch name) table s2))))"
  using nx key e by (simp add: getTable_def Let_def)

text \<open>The second of two calls in a row, when the first has returned the table \<open>t\<close>.\<close>

lemma getTable_second_some:
  assumes key: "getConnectionKey connection = Some ck"
    and nx: "\<not> crossDatabase connection options"
    and c: "cache s1 ck = Some e1" and m: "map_of (tables e1) (toObjectKey sch name) = Some t"
    and a: "t_columns t = None \<longrightarrow>
            (\<forall>n. runQuery env n
               (columnsForObjectQuery (t_schema t) (t_name t) (queryDatabase connection options)) None = None)"
    and b: "noDescription t \<longrightarrow>
            (\<forall>s''. \<not> truthy (fst (api_runScalar env
               (extendedPropertyDescriptionQuery (t_schema t) (t_name t) (queryDatabase connection options)) s'')))"
  shows "fst (getTable env connection sch name token options s1) = Some t
     \<and> issued (snd (getTable env connection sch name token options s1)) = issued s1
          @ (if t_columns t = None
             then [columnsForObjectQuery (t_schema t) (t_name t) (queryDatabase connection options)] else [])
          @ (if noDescription t
             then [extendedPropertyDescriptionQuery (t_schema t) (t_name t) (queryDatabase connection options)]
             else [])"
  unfolding getTable_cached_path [OF key nx c] m option.case
  using a b by (rule fillTable_settled)

lemma getTable_twice_result:
  assumes det: "sameAnswers env"
    and key: "getConnectionKey connection = Some ck"
    and nx: "\<not> crossDatabase connection options"
  shows "fst (getTable env connection sch name token options
                (snd (getTable env connection sch name token options s)))
           = fst (getTable env connection sch name token options s)
     \<and> (\<forall>t. fst (getTable env connection sch name token options s) = Some t \<longrightarrow>
           issued (snd (getTable env connection sch name token options
                          (snd (getTable env connection sch name token options s))))
             = issued (snd (getTable env connection sch name token options s))
               @ (if t_columns t = None
                  then [columnsForObjectQuery (t_schema t) (t_name t) (queryDatabase connection options)]
                  else [])
               @ (if noDescription t
                  then [extendedPropertyDescriptionQuery (t_schema t) (t_name t)
                          (queryDatabase connection options)]
                  else []))"
proof -
  let ?k = "toObjectKey sch name"
  let ?G = "\<lambda>s. getTable env connection sch name token options s"
  from ensureCache_holds [OF key] obtain e sa
    where e: "ensureCache env connection token s = (Some e, sa)" and ca: "cache sa ck = Some e"
    by blast
  note g = getTable_after_ensure [OF key nx e]
  have some: "?thesis"
    if f: "?G s = fillTable env connection options ck ?k table sb"
      and cb: "cache sb ck = Some eb" and mb: "map_of (tables eb) ?k = Some table"
    for table sb eb
  proof -
    obtain t s1 where r: "fillTable env connection options ck ?k table sb = (Some t, s1)"
      by (simp add: fillTable_unfold Let_def)
    from fillTable_stored [OF cb mb, of env connection options] r
    obtain e1 where c1: "cache s1 ck = Some e1" and m1: "map_of (tables e1) ?k = Some t"
      by auto
    from fillTable_settles [OF det r]
    have a: "t_columns t = None \<longrightarrow>
            (\<forall>n. runQuery env n
               (columnsForObjectQuery (t_schema t) (t_name t) (queryDatabase connection options)) None = None)"
      and b: "noDescription t \<longrightarrow>
            (\<forall>s''. \<not> truthy (fst (api_runScalar env
               (extendedPropertyDescriptionQuery (t_schema t) (t_name t) (queryDatabase connection options)) s'')))"
      by blast+
    from getTable_second_some [OF key nx c1 m1 a b, of token] f r
    show ?thesis by simp
  qed
  show ?thesis
  proof (cases "map_of (tables e) ?k")
    case (Some table)
    with g have "?G s = fillTable env connection options ck ?k table sa" by simp
    from some [OF this ca Some] show ?thesis .
  next
    case None
    obtain loaded s2 where l: "loadTableOnDemand env connection sch name options sa = (loaded, s2)"
      by (cases "loadTableOnDemand env connection sch name options sa")
    have c2: "cache s2 ck = Some e"
      using loadTableOnDemand_cache [of env connection sch name options sa] l ca by simp
    show ?thesis
    proof (cases loaded)
      case (Some table)
      from setTable_stored [OF c2, of ?k table]
      obtain e' where c': "cache (setTable ck ?k table s2) ck = Some e'"
        and m': "map_of (tables e') ?k = Some table" by blast
      from g None l Some
      have "?G s = fillTable env connection options ck ?k table (setTable ck ?k table s2)" by simp
      from some [OF this c' m'] show ?thesis .
    next
      case n: None
      from g None l n have r1: "?G s = (None, s2)" by simp
      have "fst (loadTableOnDemand env connection sch name options s2) = None"
        using loadTableOnDemand_same [OF det, of connection sch name options s2 sa] l n by simp
      then have "fst (?G s2) = None"
        unfolding getTable_cached_path [OF key nx c2] None
        by (simp add: case_prod_beta split: option.splits)
      with r1 show ?thesis by simp
    qed
  qed
qed

lemma ensureCache_no_key:
  "getConnectionKey connection = None \<Longrightarrow> ensureCache env connection token s = (None, s)"
  by (simp add: ensureCache_def)

lemma getTable_same_result:
  assumes det: "sameAnswers env"
  shows "fst (getTable env connection sch name token options
                (snd (getTable env connection sch name token options s)))
           = fst (getTable env connection sch name token options s)"
proof (cases "crossDatabase connection options")
  case True
  then show ?thesis
    using loadTableOnDemand_same [OF det]
    by (simp add: getTable_def loadTableCrossDatabase_def Let_def)
next
  case False
  show ?thesis
  proof (cases "getConnectionKey connection")
    case None
    then show ?thesis
      using False loadTableOnDemand_same [OF det]
      by (simp add: getTable_def ensureCache_no_key)
  next
    case (Some ck)
    from getTable_twice_result [OF det Some False] show ?thesis by blast
  qed
qed

text \<open>
  Claim C5. The loader returns the same results for the same query whenever it is
  asked, and \<^verbatim>\<open>getTable\<close> is called twice in a row with the same arguments, from any
  state of the cache. The second call returns what the first returned, the same
  record field for field or nothing both times. When the connection has a key and the
  call is not for another database, and the first call returned a table, the queries
  of the second call are exactly the columns query when the columns of that table are
  still absent, then the description query when its description is still absent: no
  query is sent for a field that the first call filled, and none for the object list.
  (A call for another database goes past the cache and loads everything each time.)
\<close>

theorem getTable_twice:
  assumes "sameAnswers env"
  shows "let first = getTable env connection sch name token options s;
             second = getTable env connection sch name token options (snd first);
             new = drop (length (issued (snd first))) (issued (snd second))
         in fst second = fst first
            \<and> (getConnectionKey connection \<noteq> None \<and> \<not> crossDatabase connection options \<longrightarrow>
                 (\<forall>t. fst first = Some t \<longrightarrow>
                    issued (snd second) = issued (snd first) @ new
                    \<and> new = (if t_columns t = None
                             then [columnsForObjectQuery (t_schema t) (t_name t)
                                     (queryDatabase connection options)]
                             else [])
                          @ (if noDescription t
                             then [extendedPropertyDescriptionQuery (t_schema t) (t_name t)
                                     (queryDatabase connection options)]
                             else [])
                    \<and> (t_columns t \<noteq> None \<longrightarrow>
                          columnsForObjectQuery (t_schema t) (t_name t)
                            (queryDatabase connection options) \<notin> set new)
                    \<and> (\<not> noDescription t \<longrightarrow>
                          extendedPropertyDescriptionQuery (t_schema t) (t_name t)
                            (queryDatabase connection options) \<notin> set new)))"
proof -
  let ?first = "getTable env connection sch name token options s"
  let ?second = "getTable env connection sch name token options (snd ?first)"
  let ?new = "drop (length (issued (snd ?first))) (issued (snd ?second))"
  have same: "fst ?second = fst ?first" using assms by (rule getTable_same_result)
  have rest: "issued (snd ?second) = issued (snd ?first) @ ?new
                    \<and> ?new = (if t_columns t = None
                             then [columnsForObjectQuery (t_schema t) (t_name t)
                                     (queryDatabase connection options)]
                             else [])
                          @ (if noDescription t
                             then [extendedPropertyDescriptionQuery (t_schema t) (t_name t)
                                     (queryDatabase connection options)]
                             else [])
                    \<and> (t_columns t \<noteq> None \<longrightarrow>
                          columnsForObjectQuery (t_schema t) (t_name t)
                            (queryDatabase connection options) \<notin> set ?new)
                    \<and> (\<not> noDescription t \<longrightarrow>
                          extendedPropertyDescriptionQuery (t_schema t) (t_name t)
                            (queryDatabase connection options) \<notin> set ?new)"
    if k: "getConnectionKey connection \<noteq> None" and nx: "\<not> crossDatabase connection options"
      and t: "fst ?first = Some t" for t
  proof -
    from k obtain ck where ck: "getConnectionKey connection = Some ck" by auto
    from getTable_twice_result [OF assms ck nx, of sch name token s] t
    have i: "issued (snd ?second) = issued (snd ?first)
               @ (if t_columns t = None
                  then [columnsForObjectQuery (t_schema t) (t_name t) (queryDatabase connection options)]
                  else [])
               @ (if noDescription t
                  then [extendedPropertyDescriptionQuery (t_schema t) (t_name t)
                          (queryDatabase connection options)]
                  else [])"
      by blast
    then have n: "?new = (if t_columns t = None
                  then [columnsForObjectQuery (t_schema t) (t_name t) (queryDatabase connection options)]
                  else [])
               @ (if noDescription t
                  then [extendedPropertyDescriptionQuery (t_schema t) (t_name t)
                          (queryDatabase connection options)]
                  else [])"
      by simp
    from i n have 1: "issued (snd ?second) = issued (snd ?first) @ ?new" by simp
    have 2: "t_columns t \<noteq> None \<longrightarrow>
                columnsForObjectQuery (t_schema t) (t_name t) (queryDatabase connection options) \<notin> set ?new"
      unfolding n using columns_query_not_description_query by auto
    have 3: "\<not> noDescription t \<longrightarrow>
                extendedPropertyDescriptionQuery (t_schema t) (t_name t)
                  (queryDatabase connection options) \<notin> set ?new"
      unfolding n using columns_query_not_description_query [symmetric] by auto
    from 1 n 2 3 show ?thesis by blast
  qed
  from same rest show ?thesis unfolding Let_def by blast
qed

theorem getTable_twice_witness:
  "(let env = \<lparr>runQuery = (\<lambda>n q t.
                   if q = extendedPropertyDescriptionQuery ''dbo'' ''Orders'' (Some ''Shop'') then None
                   else Some \<lparr>columns = [''schema_name'', ''object_name'', ''object_type''],
                              rows = [[''schema_name'' \<mapsto> JStr ''dbo'', ''object_name'' \<mapsto> JStr ''Orders'',
                                       ''object_type'' \<mapsto> JStr ''U'', ''column_name'' \<mapsto> JStr ''Id'',
                                       ''data_type'' \<mapsto> JStr ''int'', ''max_length'' \<mapsto> JStr ''4'',
                                       ''precision'' \<mapsto> JStr ''10'', ''scale'' \<mapsto> JStr ''0'',
                                       ''is_nullable'' \<mapsto> JStr ''0'']]\<rparr>),
               dateNow = (\<lambda>n. 0)\<rparr>;
        conn = Some \<lparr>connectionId = Some ''c1'', server = Some ''srv'',
                     conn_database = Some ''Shop'', user = None\<rparr>;
        s0 = \<lparr>cache = Map.empty, issued = []\<rparr>;
        first = getTable env conn ''dbo'' ''orders'' None None s0;
        second = getTable env conn ''dbo'' ''orders'' None None (snd first);
        new = drop (length (issued (snd first))) (issued (snd second))
    in sameAnswers env \<and> getConnectionKey conn \<noteq> None \<and> \<not> crossDatabase conn None
       \<and> map_option t_name (fst first) = Some ''Orders''
       \<and> map_option (map dataType) (t_columns (the (fst first))) = Some [''int(10, 0)'']
       \<and> t_description (the (fst first)) = None
       \<and> length (issued (snd first)) = 4
       \<and> fst second = fst first
       \<and> new = [extendedPropertyDescriptionQuery ''dbo'' ''Orders'' (Some ''Shop'')]
       \<and> columnsForObjectQuery ''dbo'' ''Orders'' (Some ''Shop'') \<notin> set new)
   \<and> (let env = \<lparr>runQuery = (\<lambda>n q t.
                   Some \<lparr>columns = [''schema_name'', ''object_name'', ''object_type''],
                         rows = [[''schema_name'' \<mapsto> JStr ''dbo'', ''object_name'' \<mapsto> JStr ''Orders'',
                                  ''object_type'' \<mapsto> JStr ''U'', ''column_name'' \<mapsto> JStr ''Id'',
                                  ''data_type'' \<mapsto> JStr ''int'', ''max_length'' \<mapsto> JStr ''4'',
                                  ''precision'' \<mapsto> JStr ''10'', ''scale'' \<mapsto> JStr ''0'',
                                  ''is_nullable'' \<mapsto> JStr ''0'']]\<rparr>),
               dateNow = (\<lambda>n. 0)\<rparr>;
        conn = Some \<lparr>connectionId = Some ''c1'', server = Some ''srv'',
                     conn_database = Some ''Shop'', user = None\<rparr>;
        s0 = \<lparr>cache = Map.empty, issued = []\<rparr>;
        first = getTable env conn ''dbo'' ''orders'' None None s0;
        second = getTable env conn ''dbo'' ''orders'' None None (snd first);
        new = drop (length (issued (snd first))) (issued (snd second))
    in sameAnswers env
       \<and> map_option t_name (fst first) = Some ''Orders''
       \<and> t_description (the (fst first)) = Some (JStr ''dbo'')
       \<and> fst second = fst first
       \<and> new = []
       \<and> extendedPropertyDescriptionQuery ''dbo'' ''Orders'' (Some ''Shop'') \<notin> set new)"
proof -
  have a: "(let env = \<lparr>runQuery = (\<lambda>n q t.
                   if q = extendedPropertyDescriptionQuery ''dbo'' ''Orders'' (Some ''Shop'') then None
                   else Some \<lparr>columns = [''schema_name'', ''object_name'', ''object_type''],
                              rows = [[''schema_name'' \<mapsto> JStr ''dbo'', ''object_name'' \<mapsto> JStr ''Orders'',
                                       ''object_type'' \<mapsto> JStr ''U'', ''column_name'' \<mapsto> JStr ''Id'',
                                       ''data_type'' \<mapsto> JStr ''int'', ''max_length'' \<mapsto> JStr ''4'',
                                       ''precision'' \<mapsto> JStr ''10'', ''scale'' \<mapsto> JStr ''0'',
                                       ''is_nullable'' \<mapsto> JStr ''0'']]\<rparr>),
               dateNow = (\<lambda>n. 0)\<rparr>;
        conn = Some \<lparr>connectionId = Some ''c1'', server = Some ''srv'',
                     conn_database = Some ''Shop'', user = None\<rparr>;
        s0 = \<lparr>cache = Map.empty, issued = []\<rparr>;
        first = getTable env conn ''dbo'' ''orders'' None None s0;
        second = getTable env conn ''dbo'' ''orders'' None None (snd first);
        new = drop (length (issued (snd first))) (issued (snd second))
    in sameAnswers env \<and> getConnectionKey conn \<noteq> None \<and> \<not> crossDatabase conn None
       \<and> map_option t_name (fst first) = Some ''Orders''
       \<and> map_option (map dataType) (t_columns (the (fst first))) = Some [''int(10, 0)'']
       \<and> t_description (the (fst first)) = None
       \<and> length (issued (snd first)) = 4
       \<and> fst second = fst first
       \<and> new = [extendedPropertyDescriptionQuery ''dbo'' ''Orders'' (Some ''Shop'')]
       \<and> columnsForObjectQuery ''dbo'' ''Orders'' (Some ''Shop'') \<notin> set new)"
  proof -
    define env where "env = \<lparr>runQuery = (\<lambda>(n :: nat) q (t :: CancellationToken option).
                     if q = extendedPropertyDescriptionQuery ''dbo'' ''Orders'' (Some ''Shop'') then None
                     else Some \<lparr>columns = [''schema_name'', ''object_name'', ''object_type''],
                                rows = [[''schema_name'' \<mapsto> JStr ''dbo'', ''object_name'' \<mapsto> JStr ''Orders'',
                                         ''object_type'' \<mapsto> JStr ''U'', ''column_name'' \<mapsto> JStr ''Id'',
                                         ''data_type'' \<mapsto> JStr ''int'', ''max_length'' \<mapsto> JStr ''4'',
                                         ''precision'' \<mapsto> JStr ''10'', ''scale'' \<mapsto> JStr ''0'',
                                         ''is_nullable'' \<mapsto> JStr ''0'']]\<rparr>),
                 dateNow = (\<lambda>n. 0 :: nat)\<rparr>"
    define conn where "conn = Some \<lparr>connectionId = Some ''c1'', server = Some ''srv'',
                       conn_database = Some ''Shop'', user = None\<rparr>"
    define s0 where "s0 = \<lparr>cache = Map.empty, issued = ([] :: string list)\<rparr>"
    define first where "first = getTable env conn ''dbo'' ''orders'' None None s0"
    define second where "second = getTable env conn ''dbo'' ''orders'' None None (snd first)"
    define new where "new = drop (length (issued (snd first))) (issued (snd second))"
    have det: "sameAnswers env" by (simp add: sameAnswers_def env_def)
    have k: "getConnectionKey conn \<noteq> None" unfolding conn_def by code_simp
    have nx: "\<not> crossDatabase conn None" unfolding conn_def by code_simp
    have v: "map_option t_name (fst first) = Some ''Orders''"
      "map_option (map dataType) (t_columns (the (fst first))) = Some [''int(10, 0)'']"
      "t_description (the (fst first)) = None"
      "length (issued (snd first)) = 4"
      unfolding first_def env_def conn_def s0_def by code_simp+
    from v(1) obtain t where t: "fst first = Some t" by (cases "fst first") simp_all
    with v have tv: "t_schema t = t_schema (the (fst first))" "t_name t = ''Orders''"
      "t_columns t \<noteq> None" "noDescription t"
      by (auto simp: noDescription_def)
    have sch: "t_schema t = ''dbo''"
      unfolding tv(1) first_def env_def conn_def s0_def by code_simp
    have qd: "queryDatabase conn None = Some ''Shop''" unfolding conn_def by code_simp
    note th = getTable_twice [OF det, of conn "''dbo''" "''orders''" None None s0,
        unfolded Let_def first_def [symmetric] second_def [symmetric] new_def [symmetric]]
    from th have same: "fst second = fst first" by blast
    from th k nx t have n: "new = (if t_columns t = None
                               then [columnsForObjectQuery (t_schema t) (t_name t)
                                       (queryDatabase conn None)]
                               else [])
                            @ (if noDescription t
                               then [extendedPropertyDescriptionQuery (t_schema t) (t_name t)
                                       (queryDatabase conn None)]
                               else [])"
      and c: "t_columns t \<noteq> None \<longrightarrow>
                            columnsForObjectQuery (t_schema t) (t_name t)
                              (queryDatabase conn None) \<notin> set new"
      by blast+
    from n tv sch qd have n': "new = [extendedPropertyDescriptionQuery ''dbo'' ''Orders'' (Some ''Shop'')]"
      by simp
    from c tv sch qd have c': "columnsForObjectQuery ''dbo'' ''Orders'' (Some ''Shop'') \<notin> set new"
      by simp
    from det k nx v same n' c' show ?thesis
      unfolding Let_def env_def [symmetric] conn_def [symmetric] s0_def [symmetric]
        first_def [symmetric] second_def [symmetric] new_def [symmetric]
      by blast
  qed
  have b: "(let env = \<lparr>runQuery = (\<lambda>n q t.
                   Some \<lparr>columns = [''schema_name'', ''object_name'', ''object_type''],
                         rows = [[''schema_name'' \<mapsto> JStr ''dbo'', ''object_name'' \<mapsto> JStr ''Orders'',
                                  ''object_type'' \<mapsto> JStr ''U'', ''column_name'' \<mapsto> JStr ''Id'',
                                  ''data_type'' \<mapsto> JStr ''int'', ''max_length'' \<mapsto> JStr ''4'',
                                  ''precision'' \<mapsto> JStr ''10'', ''scale'' \<mapsto> JStr ''0'',
                                  ''is_nullable'' \<mapsto> JStr ''0'']]\<rparr>),
               dateNow = (\<lambda>n. 0)\<rparr>;
        conn = Some \<lparr>connectionId = Some ''c1'', server = Some ''srv'',
                     conn_database = Some ''Shop'', user = None\<rparr>;
        s0 = \<lparr>cache = Map.empty, issued = []\<rparr>;
        first = getTable env conn ''dbo'' ''orders'' None None s0;
        second = getTable env conn ''dbo'' ''orders'' None None (snd first);
        new = drop (length (issued (snd first))) (issued (snd second))
    in sameAnswers env
       \<and> map_option t_name (fst first) = Some ''Orders''
       \<and> t_description (the (fst first)) = Some (JStr ''dbo'')
       \<and> fst second = fst first
       \<and> new = []
       \<and> extendedPropertyDescriptionQuery ''dbo'' ''Orders'' (Some ''Shop'') \<notin> set new)"
  proof -
    define env where "env = \<lparr>runQuery = (\<lambda>(n :: nat) (q :: string) (t :: CancellationToken option).
                   Some \<lparr>columns = [''schema_name'', ''object_name'', ''object_type''],
                         rows = [[''schema_name'' \<mapsto> JStr ''dbo'', ''object_name'' \<mapsto> JStr ''Orders'',
                                  ''object_type'' \<mapsto> JStr ''U'', ''column_name'' \<mapsto> JStr ''Id'',
                                  ''data_type'' \<mapsto> JStr ''int'', ''max_length'' \<mapsto> JStr ''4'',
                                  ''precision'' \<mapsto> JStr ''10'', ''scale'' \<mapsto> JStr ''0'',
                                  ''is_nullable'' \<mapsto> JStr ''0'']]\<rparr>),
               dateNow = (\<lambda>n. 0 :: nat)\<rparr>"
    define conn where "conn = Some \<lparr>connectionId = Some ''c1'', server = Some ''srv'',
                     conn_database = Some ''Shop'', user = None\<rparr>"
    define s0 where "s0 = \<lparr>cache = Map.empty, issued = ([] :: string list)\<rparr>"
    define first where "first = getTable env conn ''dbo'' ''orders'' None None s0"
    define second where "second = getTable env conn ''dbo'' ''orders'' None None (snd first)"
    define new where "new = drop (length (issued (snd first))) (issued (snd second))"
    have det: "sameAnswers env" by (simp add: sameAnswers_def env_def)
    have k: "getConnectionKey conn \<noteq> None" unfolding conn_def by code_simp
    have nx: "\<not> crossDatabase conn None" unfolding conn_def by code_simp
    have v: "map_option t_name (fst first) = Some ''Orders''"
      "t_description (the (fst first)) = Some (JStr ''dbo'')"
      "t_columns (the (fst first)) \<noteq> None"
      unfolding first_def env_def conn_def s0_def by code_simp+
    from v(1) obtain t where t: "fst first = Some t" by (cases "fst first") simp_all
    with v have tv: "t_name t = ''Orders''" "t_columns t \<noteq> None" "\<not> noDescription t"
      by (auto simp: noDescription_def)
    have sch: "t_schema (the (fst first)) = ''dbo''"
      unfolding first_def env_def conn_def s0_def by code_simp
    with t have sch: "t_schema t = ''dbo''" by simp
    have qd: "queryDatabase conn None = Some ''Shop''" unfolding conn_def by code_simp
    note th = getTable_twice [OF det, of conn "''dbo''" "''orders''" None None s0,
        unfolded Let_def first_def [symmetric] second_def [symmetric] new_def [symmetric]]
    from th have same: "fst second = fst first" by blast
    from th k nx t have n: "new = (if t_columns t = None
                               then [columnsForObjectQuery (t_schema t) (t_name t)
                                       (queryDatabase conn None)]
                               else [])
                            @ (if noDescription t
                               then [extendedPropertyDescriptionQuery (t_schema t) (t_name t)
                                       (queryDatabase conn None)]
                               else [])"
      and c: "\<not> noDescription t \<longrightarrow>
                            extendedPropertyDescriptionQuery (t_schema t) (t_name t)
                              (queryDatabase conn None) \<notin> set new"
      by blast+
    from n tv have n': "new = []" by simp
    from c tv sch qd have c': "extendedPropertyDescriptionQuery ''dbo'' ''Orders'' (Some ''Shop'') \<notin> set new"
      by simp
    from det v same n' c' show ?thesis
      unfolding Let_def env_def [symmetric] conn_def [symmetric] s0_def [symmetric]
        first_def [symmetric] second_def [symmetric] new_def [symmetric]
      by blast
  qed
  from a b show ?thesis by (rule conjI)
qed

section \<open>A call that names a database\<close>

lemma getTable_stored:
  assumes key: "getConnectionKey connection = Some ck"
    and nx: "\<not> crossDatabase connection options"
    and r: "fst (getTable env connection sch name token options s) = Some t"
  shows "\<exists>e. cache (snd (getTable env connection sch name token options s)) ck = Some e
     \<and> map_of (tables e) (toObjectKey sch name) = Some t"
proof -
  let ?k = "toObjectKey sch name"
  from ensureCache_holds [OF key] obtain e sa where
    e: "ensureCache env connection token s = (Some e, sa)" and c: "cache sa ck = Some e"
    by blast
  note g = getTable_after_ensure [OF key nx e, of sch name]
  show ?thesis
  proof (cases "map_of (tables e) ?k")
    case (Some table)
    with g have g': "getTable env connection sch name token options s =
        fillTable env connection options ck ?k table sa" by simp
    from fillTable_stored [OF c Some, of env connection options] r show ?thesis
      unfolding g' by simp
  next
    case None
    obtain loaded s2 where l: "loadTableOnDemand env connection sch name options sa = (loaded, s2)"
      by (cases "loadTableOnDemand env connection sch name options sa")
    have c2: "cache s2 ck = Some e"
      using loadTableOnDemand_cache [of env connection sch name options sa] l c by simp
    show ?thesis
    proof (cases loaded)
      case None
      with \<open>map_of (tables e) ?k = None\<close> g l r show ?thesis by simp
    next
      case (Some table)
      with \<open>map_of (tables e) ?k = None\<close> g l
      have g': "getTable env connection sch name token options s =
          fillTable env connection options ck ?k table (setTable ck ?k table s2)" by simp
      from setTable_stored [OF c2, of ?k table] obtain e' where
        "cache (setTable ck ?k table s2) ck = Some e'" "map_of (tables e') ?k = Some table"
        by blast
      from fillTable_stored [OF this, of env connection options] r show ?thesis
        unfolding g' by simp
    qed
  qed
qed

text \<open>
  Claim C4, as the code has it. The connection has no database name and the call
  names the database \<^verbatim>\<open>Archive\<close>, so the target database differs from the
  connection's own. The guard of \<^verbatim>\<open>getTable\<close> asks for both names, so the call is not a
  cross-database load: it runs \<^verbatim>\<open>ensureCache\<close>, which stores an entry under the
  connection key where the cache had none, loads the columns of \<^verbatim>\<open>Archive.dbo.Orders\<close>
  and stores the table returned in that entry. A later call that names no database
  finds the table there and returns it, columns of \<^verbatim>\<open>Archive\<close> included, without
  asking for the columns again.
\<close>

theorem cross_database_counterexample:
  "(let env = \<lparr>runQuery = (\<lambda>n q t.
                   if q = allObjectsQuery None
                   then Some \<lparr>columns = [''schema_name'', ''object_name'', ''object_type''], rows = []\<rparr>
                   else if q = columnsForObjectQuery ''dbo'' ''Orders'' (Some ''Archive'')
                   then Some \<lparr>columns = columnsForObjectQuery_select,
                              rows = [[''column_name'' \<mapsto> JStr ''ArchivedOn'', ''data_type'' \<mapsto> JStr ''date'',
                                       ''max_length'' \<mapsto> JStr ''3'', ''precision'' \<mapsto> JStr ''10'',
                                       ''scale'' \<mapsto> JStr ''0'', ''is_nullable'' \<mapsto> JStr ''0'']]\<rparr>
                   else None),
               dateNow = (\<lambda>n. 0)\<rparr>;
        conn = Some \<lparr>connectionId = Some ''c1'', server = Some ''srv'',
                     conn_database = None, user = None\<rparr>;
        opts = Some \<lparr>opt_database = Some ''Archive''\<rparr>;
        s0 = \<lparr>cache = Map.empty, issued = []\<rparr>;
        r = getTable env conn ''dbo'' ''Orders'' None opts s0;
        r2 = getTable env conn ''dbo'' ''Orders'' None None (snd r)
    in databaseOf conn = None \<and> optionDatabase opts = Some ''Archive''
       \<and> getConnectionKey conn = Some ''c1|srv''
       \<and> cache s0 ''c1|srv'' = None
       \<and> map_option (map c_name) (t_columns (the (fst r))) = Some [''ArchivedOn'']
       \<and> issued (snd r) = [allObjectsQuery None, foreignKeysQuery None,
                           columnsForObjectQuery ''dbo'' ''Orders'' (Some ''Archive''),
                           extendedPropertyDescriptionQuery ''dbo'' ''Orders'' (Some ''Archive''),
                           extendedPropertyDescriptionQuery ''dbo'' ''Orders'' (Some ''Archive'')]
       \<and> map_option (\<lambda>e. map_of (tables e) ''dbo.orders'') (cache (snd r) ''c1|srv'') = Some (fst r)
       \<and> fst r2 = fst r
       \<and> issued (snd r2) = issued (snd r) @ [extendedPropertyDescriptionQuery ''dbo'' ''Orders'' None])"
  by code_simp

text \<open>
  Claim C4, amended. The call names the database \<open>tdb\<close>, not empty. When the
  connection has a database name \<open>cdb\<close>, not empty, that differs from \<open>tdb\<close> with
  letter case set aside, which is how \<^verbatim>\<open>getTable\<close> compares them, \<^verbatim>\<open>getTable\<close> is
  \<^verbatim>\<open>loadTableCrossDatabase\<close> for \<open>tdb\<close>; the cache after the call is the cache before
  it, so the table returned is stored nowhere; and with any other content of the cache
  the call returns the same table, sends the same queries and leaves that content as
  it is, so it reads no entry of the cache. When the connection has no database name
  or an empty one, or the two names differ in letter case only, the call is no
  cross-database load: a table it returns is stored in the entry that the cache holds
  under the connection key after the call.
\<close>

theorem cross_database_isolated:
  assumes "optionDatabase options = Some tdb" and "tdb \<noteq> []"
  shows "(databaseOf connection = Some cdb \<and> cdb \<noteq> [] \<and> toLowerCase tdb \<noteq> toLowerCase cdb \<longrightarrow>
        getTable env connection sch name token options s =
           loadTableCrossDatabase env (the connection) tdb sch name s
        \<and> cache (snd (getTable env connection sch name token options s)) = cache s
        \<and> (\<forall>c'. getTable env connection sch name token options (s\<lparr>cache := c'\<rparr>) =
              (fst (getTable env connection sch name token options s),
               (snd (getTable env connection sch name token options s))\<lparr>cache := c'\<rparr>)))
     \<and> ((databaseOf connection = None \<or> databaseOf connection = Some []
          \<or> map_option toLowerCase (databaseOf connection) = Some (toLowerCase tdb))
         \<and> getConnectionKey connection = Some ck
         \<and> fst (getTable env connection sch name token options s) = Some t \<longrightarrow>
        (\<exists>e. cache (snd (getTable env connection sch name token options s)) ck = Some e
            \<and> map_of (tables e) (toObjectKey sch name) = Some t))"
proof (intro conjI impI)
  assume a: "databaseOf connection = Some cdb \<and> cdb \<noteq> [] \<and> toLowerCase tdb \<noteq> toLowerCase cdb"
  with assms have x: "crossDatabase connection options"
    by (simp add: crossDatabase_def truthyString_def)
  have g: "getTable env connection sch name token options s' =
           loadTableCrossDatabase env (the connection) tdb sch name s'" for s'
    using x assms(1) by (simp add: getTable_def)
  have c: "cache (snd (loadTableCrossDatabase env (the connection) tdb sch name s)) = cache s"
    by (simp add: loadTableCrossDatabase_def Let_def loadTableOnDemand_cache)
  have o: "loadTableCrossDatabase env (the connection) tdb sch name (s\<lparr>cache := c'\<rparr>) =
       (fst (loadTableCrossDatabase env (the connection) tdb sch name s),
        (snd (loadTableCrossDatabase env (the connection) tdb sch name s))\<lparr>cache := c'\<rparr>)" for c'
    by (simp add: loadTableCrossDatabase_def Let_def loadTableOnDemand_other_cache)
  show "getTable env connection sch name token options s =
           loadTableCrossDatabase env (the connection) tdb sch name s" by (rule g)
  show "cache (snd (getTable env connection sch name token options s)) = cache s"
    unfolding g by (rule c)
  show "\<forall>c'. getTable env connection sch name token options (s\<lparr>cache := c'\<rparr>) =
              (fst (getTable env connection sch name token options s),
               (snd (getTable env connection sch name token options s))\<lparr>cache := c'\<rparr>)"
    unfolding g using o by blast
next
  assume a: "(databaseOf connection = None \<or> databaseOf connection = Some []
          \<or> map_option toLowerCase (databaseOf connection) = Some (toLowerCase tdb))
         \<and> getConnectionKey connection = Some ck
         \<and> fst (getTable env connection sch name token options s) = Some t"
  with assms have nx: "\<not> crossDatabase connection options"
    by (auto simp: crossDatabase_def truthyString_def)
  from a have key: "getConnectionKey connection = Some ck"
    and r: "fst (getTable env connection sch name token options s) = Some t" by blast+
  from key nx r
  show "\<exists>e. cache (snd (getTable env connection sch name token options s)) ck = Some e
            \<and> map_of (tables e) (toObjectKey sch name) = Some t"
    by (rule getTable_stored)
qed

theorem cross_database_isolated_witness:
  "(let env = \<lparr>runQuery = (\<lambda>n q t.
                   if q = columnsForObjectQuery ''dbo'' ''Orders'' (Some ''Archive'')
                      \<or> q = columnsForObjectQuery ''dbo'' ''Orders'' (Some (CHR 0xE9 # ''cole''))
                   then Some \<lparr>columns = columnsForObjectQuery_select,
                              rows = [[''column_name'' \<mapsto> JStr ''Id'', ''data_type'' \<mapsto> JStr ''int'',
                                       ''max_length'' \<mapsto> JStr ''4'', ''precision'' \<mapsto> JStr ''10'',
                                       ''scale'' \<mapsto> JStr ''0'', ''is_nullable'' \<mapsto> JStr ''0'']]\<rparr>
                   else None),
               dateNow = (\<lambda>n. 0)\<rparr>;
        shop = Some \<lparr>connectionId = Some ''c1'', server = Some ''srv'',
                     conn_database = Some ''Shop'', user = None\<rparr>;
        bare = Some \<lparr>connectionId = Some ''c1'', server = Some ''srv'',
                     conn_database = None, user = None\<rparr>;
        ecole = Some \<lparr>connectionId = Some ''c2'', server = None,
                      conn_database = Some (CHR 0xC9 # ''COLE''), user = None\<rparr>;
        opts = Some \<lparr>opt_database = Some ''Archive''\<rparr>;
        opts' = Some \<lparr>opt_database = Some (CHR 0xE9 # ''cole'')\<rparr>;
        s0 = \<lparr>cache = Map.empty, issued = []\<rparr>;
        r = getTable env shop ''dbo'' ''Orders'' None opts s0;
        r' = getTable env bare ''dbo'' ''Orders'' None opts s0;
        r'' = getTable env ecole ''dbo'' ''Orders'' None opts' s0
    in optionDatabase opts = Some ''Archive''
       \<and> databaseOf shop = Some ''Shop'' \<and> toLowerCase ''Archive'' \<noteq> toLowerCase ''Shop''
       \<and> map_option t_name (fst r) = Some ''Orders''
       \<and> map_option (map c_name) (t_columns (the (fst r))) = Some [''Id'']
       \<and> cache (snd r) = Map.empty
       \<and> issued (snd r) = [columnsForObjectQuery ''dbo'' ''Orders'' (Some ''Archive''),
                           extendedPropertyDescriptionQuery ''dbo'' ''Orders'' (Some ''Archive'')]
       \<and> databaseOf bare = None \<and> getConnectionKey bare = Some ''c1|srv''
       \<and> map_option (map c_name) (t_columns (the (fst r'))) = Some [''Id'']
       \<and> (\<exists>e. cache (snd r') ''c1|srv'' = Some e
              \<and> map_of (tables e) (toObjectKey ''dbo'' ''Orders'') = fst r')
       \<and> optionDatabase opts' = Some (CHR 0xE9 # ''cole'')
       \<and> map_option toLowerCase (databaseOf ecole) = Some (toLowerCase (CHR 0xE9 # ''cole''))
       \<and> getConnectionKey ecole = Some (''c2|'' @ CHR 0xC9 # ''COLE'')
       \<and> map_option (map c_name) (t_columns (the (fst r''))) = Some [''Id'']
       \<and> (\<exists>e. cache (snd r'') (''c2|'' @ CHR 0xC9 # ''COLE'') = Some e
              \<and> map_of (tables e) (toObjectKey ''dbo'' ''Orders'') = fst r''))"
proof -
  define env where "env = \<lparr>runQuery = (\<lambda>(n :: nat) (q :: string) (t :: CancellationToken option).
                   if q = columnsForObjectQuery ''dbo'' ''Orders'' (Some ''Archive'')
                      \<or> q = columnsForObjectQuery ''dbo'' ''Orders'' (Some (CHR 0xE9 # ''cole''))
                   then Some \<lparr>columns = columnsForObjectQuery_select,
                              rows = [[''column_name'' \<mapsto> JStr ''Id'', ''data_type'' \<mapsto> JStr ''int'',
                                       ''max_length'' \<mapsto> JStr ''4'', ''precision'' \<mapsto> JStr ''10'',
                                       ''scale'' \<mapsto> JStr ''0'', ''is_nullable'' \<mapsto> JStr ''0'']]\<rparr>
                   else None),
               dateNow = (\<lambda>n. 0 :: nat)\<rparr>"
  define shop where "shop = Some \<lparr>connectionId = Some ''c1'', server = Some ''srv'',
                     conn_database = Some ''Shop'', user = None\<rparr>"
  define bare where "bare = Some \<lparr>connectionId = Some ''c1'', server = Some ''srv'',
                     conn_database = None, user = None\<rparr>"
  define ecole where "ecole = Some \<lparr>connectionId = Some ''c2'', server = None,
                      conn_database = Some (CHR 0xC9 # ''COLE''), user = None\<rparr>"
  define opts where "opts = Some \<lparr>opt_database = Some ''Archive''\<rparr>"
  define opts' where "opts' = Some \<lparr>opt_database = Some (CHR 0xE9 # ''cole'')\<rparr>"
  define s0 where "s0 = \<lparr>cache = Map.empty, issued = ([] :: string list)\<rparr>"
  have o: "optionDatabase opts = Some ''Archive''" "''Archive'' \<noteq> []"
    unfolding opts_def by code_simp+
  have h: "databaseOf shop = Some ''Shop''" "''Shop'' \<noteq> []"
    "toLowerCase ''Archive'' \<noteq> toLowerCase ''Shop''"
    unfolding shop_def by code_simp+
  note t = cross_database_isolated [OF o, of shop "''Shop''" env "''dbo''" "''Orders''" None s0]
  from t h have "cache (snd (getTable env shop ''dbo'' ''Orders'' None opts s0)) = cache s0"
    by blast
  then have c: "cache (snd (getTable env shop ''dbo'' ''Orders'' None opts s0)) = Map.empty"
    by (simp add: s0_def)
  have n: "map_option t_name (fst (getTable env shop ''dbo'' ''Orders'' None opts s0)) = Some ''Orders''"
    "map_option (map c_name) (t_columns (the (fst (getTable env shop ''dbo'' ''Orders'' None opts s0)))) = Some [''Id'']"
    "issued (snd (getTable env shop ''dbo'' ''Orders'' None opts s0)) =
        [columnsForObjectQuery ''dbo'' ''Orders'' (Some ''Archive''),
         extendedPropertyDescriptionQuery ''dbo'' ''Orders'' (Some ''Archive'')]"
    unfolding env_def shop_def opts_def s0_def by code_simp+
  have b: "databaseOf bare = None" "getConnectionKey bare = Some ''c1|srv''"
    unfolding bare_def by code_simp+
  have n': "map_option (map c_name) (t_columns (the (fst (getTable env bare ''dbo'' ''Orders'' None opts s0)))) = Some [''Id'']"
    and some: "fst (getTable env bare ''dbo'' ''Orders'' None opts s0) \<noteq> None"
    unfolding env_def bare_def opts_def s0_def by code_simp+
  from some have r: "fst (getTable env bare ''dbo'' ''Orders'' None opts s0) =
      Some (the (fst (getTable env bare ''dbo'' ''Orders'' None opts s0)))"
    by simp
  note t' = cross_database_isolated [OF o, of bare _ env "''dbo''" "''Orders''" None s0 "''c1|srv''"
      "the (fst (getTable env bare ''dbo'' ''Orders'' None opts s0))"]
  from t' b r have "\<exists>e. cache (snd (getTable env bare ''dbo'' ''Orders'' None opts s0)) ''c1|srv'' = Some e
      \<and> map_of (tables e) (toObjectKey ''dbo'' ''Orders'') =
          Some (the (fst (getTable env bare ''dbo'' ''Orders'' None opts s0)))"
    by blast
  with r have st: "\<exists>e. cache (snd (getTable env bare ''dbo'' ''Orders'' None opts s0)) ''c1|srv'' = Some e
      \<and> map_of (tables e) (toObjectKey ''dbo'' ''Orders'') =
          fst (getTable env bare ''dbo'' ''Orders'' None opts s0)"
    by simp
  have o': "optionDatabase opts' = Some (CHR 0xE9 # ''cole'')" "CHR 0xE9 # ''cole'' \<noteq> []"
    unfolding opts'_def by code_simp+
  have b': "map_option toLowerCase (databaseOf ecole) = Some (toLowerCase (CHR 0xE9 # ''cole''))"
    "getConnectionKey ecole = Some (''c2|'' @ CHR 0xC9 # ''COLE'')"
    unfolding ecole_def by code_simp+
  have n'': "map_option (map c_name) (t_columns (the (fst (getTable env ecole ''dbo'' ''Orders'' None opts' s0)))) = Some [''Id'']"
    and some': "fst (getTable env ecole ''dbo'' ''Orders'' None opts' s0) \<noteq> None"
    unfolding env_def ecole_def opts'_def s0_def by code_simp+
  from some' have r': "fst (getTable env ecole ''dbo'' ''Orders'' None opts' s0) =
      Some (the (fst (getTable env ecole ''dbo'' ''Orders'' None opts' s0)))"
    by simp
  note t'' = cross_database_isolated [OF o', of ecole _ env "''dbo''" "''Orders''" None s0
      "''c2|'' @ CHR 0xC9 # ''COLE''"
      "the (fst (getTable env ecole ''dbo'' ''Orders'' None opts' s0))"]
  from t'' b' r'
  have "\<exists>e. cache (snd (getTable env ecole ''dbo'' ''Orders'' None opts' s0)) (''c2|'' @ CHR 0xC9 # ''COLE'') = Some e
      \<and> map_of (tables e) (toObjectKey ''dbo'' ''Orders'') =
          Some (the (fst (getTable env ecole ''dbo'' ''Orders'' None opts' s0)))"
    by blast
  with r' have st': "\<exists>e. cache (snd (getTable env ecole ''dbo'' ''Orders'' None opts' s0)) (''c2|'' @ CHR 0xC9 # ''COLE'') = Some e
      \<and> map_of (tables e) (toObjectKey ''dbo'' ''Orders'') =
          fst (getTable env ecole ''dbo'' ''Orders'' None opts' s0)"
    by simp
  from o h c n b n' st o'(1) b' n'' st' show ?thesis
    unfolding Let_def env_def [symmetric] shop_def [symmetric] bare_def [symmetric]
      ecole_def [symmetric] opts_def [symmetric] opts'_def [symmetric] s0_def [symmetric]
    by simp
qed

end
